theory Spec2Isabelle
  imports Complex_Main "HOL-Library.Word"
begin

section \<open>Data model\<close>

text \<open>
  The full-control fleet adapter of rmf_fleet_adapter: the per-robot command handle
  \<open>FleetDriverRobotCommandHandle\<close> and the fleet-level \<open>Connections\<close>.

  Conventions of the embedding.
  \<^item> \<open>double\<close> and \<open>float\<close> values are real numbers; rounding and NaN are not modelled.
  \<^item> A \<open>steady_clock::time_point\<close> is an integer count of nanoseconds; the clock reading
    \<open>steady_clock::now()\<close> of a call is the argument \<open>now\<close>.
  \<^item> Calls on the updater, on the publishers, on the logger and of the stored callbacks
    are appended, in program order, to the \<open>trace\<close> of the handle.
  \<^item> A C++ exception, a failed \<open>assert\<close> and the dereference of an empty optional are
    the \<open>Inl\<close> results of an operation.
  \<^item> The functions declared in \<open>estimation.hpp\<close> and the planner utilities of
    rmf_traffic are parameters, collected in the record \<open>env\<close>.
\<close>

type_synonym vec2 = "real \<times> real"
type_synonym vec3 = "real \<times> real \<times> real"
type_synonym time_point = int
type_synonym callback = nat

definition milliseconds :: "int \<Rightarrow> int" where
  "milliseconds n = n * 1000000"

definition seconds :: "int \<Rightarrow> int" where
  "seconds n = n * 1000000000"

definition vsub :: "vec2 \<Rightarrow> vec2 \<Rightarrow> vec2" where
  "vsub a b = (fst a - fst b, snd a - snd b)"

definition dot :: "vec2 \<Rightarrow> vec2 \<Rightarrow> real" where
  "dot a b = fst a * fst b + snd a * snd b"

definition vnorm :: "vec2 \<Rightarrow> real" where
  "vnorm a = sqrt (dot a a)"

definition vscale :: "real \<Rightarrow> vec2 \<Rightarrow> vec2" where
  "vscale k a = (k * fst a, k * snd a)"

subsection \<open>Messages\<close>

datatype robot_mode =
    MODE_IDLE | MODE_CHARGING | MODE_MOVING | MODE_PAUSED | MODE_WAITING
  | MODE_EMERGENCY | MODE_GOING_HOME | MODE_DOCKING | MODE_ADAPTER_ERROR
  | MODE_CLEANING

record location_msg =
  loc_t :: int
  loc_x :: real
  loc_y :: real
  loc_yaw :: real
  loc_level_name :: string
  loc_obey_approach_speed_limit :: bool
  loc_approach_speed_limit :: real

record robot_state =
  rs_name :: string
  rs_task_id :: string
  rs_mode :: robot_mode
  rs_battery_percent :: real
  rs_location :: location_msg
  rs_path :: "location_msg list"

record path_request =
  pr_fleet_name :: string
  pr_robot_name :: string
  pr_task_id :: string
  pr_path :: "location_msg list"

record mode_request =
  mr_fleet_name :: string
  mr_robot_name :: string
  mr_mode :: robot_mode
  mr_task_id :: string
  mr_parameters :: "(string \<times> string) list"

datatype interrupt_type = TYPE_INTERRUPT | TYPE_RESUME

record interrupt_request =
  ir_fleet_name :: string
  ir_robot_name :: string
  ir_interrupt_id :: string
  ir_labels :: "string list"
  ir_type :: interrupt_type

record fleet_state =
  fs_name :: string
  fs_robots :: "robot_state list"

subsection \<open>Navigation graph and plan\<close>

datatype lane_event =
    Dock string | DoorOpen | DoorClose | LiftSessionBegin | LiftMove
  | LiftDoorOpen | LiftSessionEnd | Wait

record graph_waypoint =
  wp_map_name :: string
  wp_location :: vec2
  wp_name :: "string option"

record graph_lane =
  lane_entry :: nat
  lane_exit :: nat
  lane_entry_event :: "lane_event option"
  lane_speed_limit :: "real option"

record graph =
  g_waypoints :: "graph_waypoint list"
  g_lanes :: "graph_lane list"

record plan_waypoint =
  pw_position :: vec3
  pw_time :: int
  pw_graph_index :: "nat option"
  pw_approach_lanes :: "nat list"

datatype error = Out_of_range | Assertion_failed | Null_dereference

text \<open>\<open>Graph::get_waypoint\<close> and \<open>Graph::get_lane\<close> read a vector with \<open>at\<close>.\<close>

definition get_waypoint :: "graph \<Rightarrow> nat \<Rightarrow> error + graph_waypoint" where
  "get_waypoint g i =
     (if i < length (g_waypoints g) then Inr (g_waypoints g ! i) else Inl Out_of_range)"

definition get_lane :: "graph \<Rightarrow> nat \<Rightarrow> error + graph_lane" where
  "get_lane g i =
     (if i < length (g_lanes g) then Inr (g_lanes g ! i) else Inl Out_of_range)"

text \<open>
  Modelled from the spec: \<open>Graph::lane_from\<close> of rmf_traffic, the lookup of the lane
  whose entry is \<open>from_wp\<close> and whose exit is \<open>to_wp\<close>; the result is the index of the
  first such lane, none when there is no such lane.
\<close>

fun lane_from_loop :: "graph_lane list \<Rightarrow> nat \<Rightarrow> nat \<Rightarrow> nat \<Rightarrow> nat option" where
  "lane_from_loop [] i from_wp to_wp = None"
| "lane_from_loop (l # ls) i from_wp to_wp =
     (if lane_entry l = from_wp \<and> lane_exit l = to_wp then Some i
      else lane_from_loop ls (Suc i) from_wp to_wp)"

definition lane_from :: "graph \<Rightarrow> nat \<Rightarrow> nat \<Rightarrow> nat option" where
  "lane_from g from_wp to_wp = lane_from_loop (g_lanes g) 0 from_wp to_wp"

subsection \<open>Decimal strings\<close>

definition digit_char :: "nat \<Rightarrow> char" where
  "digit_char d = ''0123456789'' ! d"

function to_string :: "nat \<Rightarrow> string" where
  "to_string n =
     (if n < 10 then [digit_char n]
      else to_string (n div 10) @ [digit_char (n mod 10)])"
  by pat_completeness auto
termination
  by (relation "measure id") auto

declare to_string.simps [simp del]

subsection \<open>Travel information and the command handle\<close>

record travel_info =
  ti_waypoints :: "plan_waypoint list"
  ti_next_arrival_estimator :: "callback option"
  ti_path_finished_callback :: "callback option"
  ti_last_known_wp :: "nat option"
  ti_graph :: graph
  ti_target_plan_index :: "nat option"
  ti_fleet_name :: string
  ti_robot_name :: string

type_synonym trajectory = "(int \<times> vec3) list"
type_synonym interruption = nat

datatype log_msg =
    Battery_out_of_range
  | Cannot_stop string
  | Requesting_dock string string string
  | Need_to_replan string string
  | Action_completed string
  | Asking_to_resume string string

datatype event =
    Update_battery_soc real
  | Update_position_lanes vec3 "nat list"
  | Update_position_waypoint vec3 nat
  | Replan
  | Interrupt "string list" string interruption
  | Resume interruption "string list"
  | Enable_responsive_wait bool
  | Set_action_executor
  | Participant_set string trajectory
  | Publish_path path_request
  | Publish_mode mode_request
  | Log log_msg
  | Call_estimate_state location_msg
  | Call_estimate_waypoint location_msg
  | Call_check_path_finish robot_state
  | Call_estimate_path_traveling robot_state
  | Call_dock_finished callback
  | Call_action_finished nat

record handle =
  current_path_request :: path_request
  path_requested_time :: time_point
  travel_info :: travel_info
  last_known_state :: "robot_state option"
  interrupted :: bool
  current_dock_request :: mode_request
  dock_target_wp :: "nat option"
  dock_requested_time :: time_point
  dock_schedule_time :: time_point
  dock_finished_callback :: "callback option"
  interruptions :: "string \<rightharpoonup> interruption"
  next_interruption :: interruption
  current_task_id :: "32 word"
  action_execution :: "nat option"
  trace :: "event list"

text \<open>
  The collaborators that are not part of the handle: the four functions of
  \<open>estimation.hpp\<close> (each takes the travel information by reference and is recorded
  in the trace by a \<open>Call_\<close> event), \<open>Interpolate::positions\<close>, whether the updater has
  a schedule participant, and the node parameter \<open>enable_responsive_wait\<close>.
\<close>

record env =
  estimate_state :: "location_msg \<Rightarrow> travel_info \<Rightarrow> travel_info"
  estimate_waypoint :: "location_msg \<Rightarrow> travel_info \<Rightarrow> travel_info"
  check_path_finish :: "robot_state \<Rightarrow> travel_info \<Rightarrow> travel_info"
  estimate_path_traveling :: "robot_state \<Rightarrow> travel_info \<Rightarrow> travel_info"
  interpolate_positions :: "int \<Rightarrow> vec3 list \<Rightarrow> trajectory"
  get_participant :: bool
  enable_responsive_wait :: bool

definition emit :: "event \<Rightarrow> handle \<Rightarrow> handle" where
  "emit e h = h\<lparr>trace := trace h @ [e]\<rparr>"

text \<open>The constructor: both requests carry the names, nothing has been received.\<close>

definition make_handle ::
  "time_point \<Rightarrow> string \<Rightarrow> string \<Rightarrow> graph \<Rightarrow> handle" where
  "make_handle now fleet_name robot_name g =
     \<lparr>current_path_request =
        \<lparr>pr_fleet_name = fleet_name, pr_robot_name = robot_name,
         pr_task_id = [], pr_path = []\<rparr>,
      path_requested_time = 0,
      travel_info =
        \<lparr>ti_waypoints = [], ti_next_arrival_estimator = None,
         ti_path_finished_callback = None, ti_last_known_wp = None,
         ti_graph = g, ti_target_plan_index = None,
         ti_fleet_name = fleet_name, ti_robot_name = robot_name\<rparr>,
      last_known_state = None,
      interrupted = False,
      current_dock_request =
        \<lparr>mr_fleet_name = fleet_name, mr_robot_name = robot_name,
         mr_mode = MODE_DOCKING, mr_task_id = [],
         mr_parameters = [(''docking'', [])]\<rparr>,
      dock_target_wp = None,
      dock_requested_time = 0,
      dock_schedule_time = now,
      dock_finished_callback = None,
      interruptions = Map.empty,
      next_interruption = 0,
      current_task_id = 0,
      action_execution = None,
      trace = []\<rparr>"

definition clear_last_command :: "handle \<Rightarrow> handle" where
  "clear_last_command h =
     h\<lparr>travel_info := (travel_info h)
          \<lparr>ti_next_arrival_estimator := None, ti_path_finished_callback := None\<rparr>,
       dock_finished_callback := None\<rparr>"

subsection \<open>follow_new_path, stop, dock\<close>

fun approach_speed_limit ::
  "graph \<Rightarrow> nat list \<Rightarrow> real option \<Rightarrow> error + real option" where
  "approach_speed_limit g [] speed_limit = Inr speed_limit"
| "approach_speed_limit g (lane_idx # rest) speed_limit =
     (case get_lane g lane_idx of
        Inl e \<Rightarrow> Inl e
      | Inr lane \<Rightarrow>
          (case lane_speed_limit lane of
             None \<Rightarrow> approach_speed_limit g rest speed_limit
           | Some lane_limit \<Rightarrow>
               (case speed_limit of
                  Some s \<Rightarrow> approach_speed_limit g rest (Some (min s lane_limit))
                | None \<Rightarrow> approach_speed_limit g rest (Some lane_limit))))"

definition path_location :: "graph \<Rightarrow> plan_waypoint \<Rightarrow> error + location_msg" where
  "path_location g wp =
     (case approach_speed_limit g (pw_approach_lanes wp) None of
        Inl e \<Rightarrow> Inl e
      | Inr speed_limit \<Rightarrow>
          (let location =
                 \<lparr>loc_t = pw_time wp,
                  loc_x = fst (pw_position wp),
                  loc_y = fst (snd (pw_position wp)),
                  loc_yaw = snd (snd (pw_position wp)),
                  loc_level_name = [],
                  loc_obey_approach_speed_limit = (speed_limit \<noteq> None),
                  loc_approach_speed_limit =
                    (case speed_limit of Some s \<Rightarrow> s | None \<Rightarrow> 0)\<rparr>
           in case pw_graph_index wp of
                None \<Rightarrow> Inr location
              | Some gi \<Rightarrow>
                  (case get_waypoint g gi of
                     Inl e \<Rightarrow> Inl e
                   | Inr gwp \<Rightarrow> Inr (location\<lparr>loc_level_name := wp_map_name gwp\<rparr>))))"

fun path_locations :: "graph \<Rightarrow> plan_waypoint list \<Rightarrow> error + location_msg list" where
  "path_locations g [] = Inr []"
| "path_locations g (wp # wps) =
     (case path_location g wp of
        Inl e \<Rightarrow> Inl e
      | Inr l \<Rightarrow>
          (case path_locations g wps of
             Inl e \<Rightarrow> Inl e
           | Inr ls \<Rightarrow> Inr (l # ls)))"

definition next_task_id :: "handle \<Rightarrow> 32 word" where
  "next_task_id h = current_task_id h + 1"

definition follow_new_path ::
  "time_point \<Rightarrow> plan_waypoint list \<Rightarrow> callback option \<Rightarrow> callback option
    \<Rightarrow> handle \<Rightarrow> error + handle" where
  "follow_new_path now waypoints next_arrival_estimator path_finished_callback h0 =
     (let h1 = clear_last_command h0;
          h2 = h1\<lparr>travel_info := (travel_info h1)
                  \<lparr>ti_target_plan_index := None,
                   ti_waypoints := waypoints,
                   ti_next_arrival_estimator := next_arrival_estimator,
                   ti_path_finished_callback := path_finished_callback\<rparr>,
                 interrupted := False,
                 current_task_id := next_task_id h1\<rparr>
      in case path_locations (ti_graph (travel_info h2)) waypoints of
           Inl e \<Rightarrow> Inl e
         | Inr path \<Rightarrow>
             (let req = (current_path_request h2)
                    \<lparr>pr_task_id := to_string (unat (current_task_id h2)),
                     pr_path := path\<rparr>
              in Inr (emit (Publish_path req)
                       (h2\<lparr>current_path_request := req,
                           path_requested_time := now\<rparr>))))"

definition stop :: "time_point \<Rightarrow> handle \<Rightarrow> handle" where
  "stop now h0 =
     (let h1 = clear_last_command h0
      in case last_known_state h1 of
           None \<Rightarrow> emit (Log (Cannot_stop (ti_robot_name (travel_info h1)))) h1
         | Some st \<Rightarrow>
             (let h2 = h1\<lparr>current_task_id := next_task_id h1\<rparr>;
                  req = (current_path_request h2)
                    \<lparr>pr_task_id := to_string (unat (current_task_id h2)),
                     pr_path := [rs_location st]\<rparr>
              in emit (Publish_path req)
                   (h2\<lparr>current_path_request := req,
                       path_requested_time := now\<rparr>)))"

text \<open>
  The loop of \<open>dock\<close> over the lanes with its \<open>DockFinder\<close>: the entry waypoint of the
  first lane whose entry event is a \<open>Dock\<close> of that name.
\<close>

fun is_dock :: "string \<Rightarrow> lane_event \<Rightarrow> bool" where
  "is_dock dock_name (Dock n) = (n = dock_name)"
| "is_dock dock_name _ = False"

fun find_dock_target :: "string \<Rightarrow> graph_lane list \<Rightarrow> nat option" where
  "find_dock_target dock_name [] = None"
| "find_dock_target dock_name (lane # rest) =
     (case lane_entry_event lane of
        None \<Rightarrow> find_dock_target dock_name rest
      | Some ev \<Rightarrow>
          (if is_dock dock_name ev then Some (lane_entry lane)
           else find_dock_target dock_name rest))"

definition dock ::
  "time_point \<Rightarrow> string \<Rightarrow> callback option \<Rightarrow> handle \<Rightarrow> error + handle" where
  "dock now dock_name docking_finished_callback h0 =
     (let h1 = clear_last_command h0
      in case mr_parameters (current_dock_request h1) of
           [] \<Rightarrow> Inl Null_dereference
         | p # ps \<Rightarrow>
             (let h2 = h1\<lparr>dock_finished_callback := docking_finished_callback,
                         current_task_id := next_task_id h1\<rparr>;
                  req = (current_dock_request h2)
                    \<lparr>mr_parameters := (fst p, dock_name) # ps,
                     mr_task_id := to_string (unat (current_task_id h2))\<rparr>;
                  h3 = emit (Publish_mode req)
                         (h2\<lparr>current_dock_request := req,
                             dock_requested_time := now\<rparr>);
                  g = ti_graph (travel_info h3);
                  h4 = h3\<lparr>dock_target_wp := find_dock_target dock_name (g_lanes g)\<rparr>
              in case dock_target_wp h4 of
                   None \<Rightarrow> Inl Assertion_failed
                 | Some w \<Rightarrow>
                     (case get_waypoint g w of
                        Inl e \<Rightarrow> Inl e
                      | Inr wp \<Rightarrow>
                          Inr (emit (Log (Requesting_dock
                                  (pr_robot_name (current_path_request h4))
                                  (pr_fleet_name (current_path_request h4))
                                  (case wp_name wp of
                                     Some n \<Rightarrow> n
                                   | None \<Rightarrow> to_string w))) h4))))"

subsection \<open>update_state\<close>

definition run_estimate_state :: "env \<Rightarrow> location_msg \<Rightarrow> handle \<Rightarrow> handle" where
  "run_estimate_state env l h =
     emit (Call_estimate_state l)
       (h\<lparr>travel_info := estimate_state env l (travel_info h)\<rparr>)"

definition run_estimate_waypoint :: "env \<Rightarrow> location_msg \<Rightarrow> handle \<Rightarrow> handle" where
  "run_estimate_waypoint env l h =
     emit (Call_estimate_waypoint l)
       (h\<lparr>travel_info := estimate_waypoint env l (travel_info h)\<rparr>)"

definition run_check_path_finish :: "env \<Rightarrow> robot_state \<Rightarrow> handle \<Rightarrow> handle" where
  "run_check_path_finish env st h =
     emit (Call_check_path_finish st)
       (h\<lparr>travel_info := check_path_finish env st (travel_info h)\<rparr>)"

definition run_estimate_path_traveling :: "env \<Rightarrow> robot_state \<Rightarrow> handle \<Rightarrow> handle" where
  "run_estimate_path_traveling env st h =
     emit (Call_estimate_path_traveling st)
       (h\<lparr>travel_info := estimate_path_traveling env st (travel_info h)\<rparr>)"

text \<open>The first statements of \<open>update_state\<close>, up to the reset of the target index.\<close>

definition record_state :: "robot_state \<Rightarrow> handle \<Rightarrow> handle" where
  "record_state state h0 =
     (let h1 = h0\<lparr>last_known_state := Some state\<rparr>;
          battery_soc = rs_battery_percent state / 100;
          h2 = (if 0 \<le> battery_soc \<and> battery_soc \<le> 1
                then emit (Update_battery_soc battery_soc) h1
                else emit (Log Battery_out_of_range) h1)
      in h2\<lparr>travel_info := (travel_info h2)\<lparr>ti_target_plan_index := None\<rparr>\<rparr>)"

text \<open>The branch taken when a \<open>path_finished_callback\<close> is set.\<close>

definition update_following ::
  "env \<Rightarrow> time_point \<Rightarrow> robot_state \<Rightarrow> handle \<Rightarrow> error + handle" where
  "update_following env now state h =
     (if dock_finished_callback h \<noteq> None then Inl Assertion_failed
      else if ti_next_arrival_estimator (travel_info h) = None then Inl Assertion_failed
      else if rs_task_id state \<noteq> pr_task_id (current_path_request h) then
        Inr (run_estimate_state env (rs_location state)
              (if milliseconds 200 < now - path_requested_time h
               then emit (Publish_path (current_path_request h))
                      (h\<lparr>path_requested_time := now\<rparr>)
               else h))
      else if rs_mode state = MODE_ADAPTER_ERROR then
        (if interrupted h then Inr h
         else Inr (emit Replan
                (run_estimate_state env (rs_location state)
                  ((emit (Log (Need_to_replan
                       (pr_fleet_name (current_path_request h))
                       (pr_robot_name (current_path_request h)))) h)
                   \<lparr>interrupted := True\<rparr>))))
      else if rs_path state = [] then Inr (run_check_path_finish env state h)
      else Inr (run_estimate_path_traveling env state h))"

text \<open>The branch taken when only a \<open>_dock_finished_callback\<close> is set.\<close>

definition location_position :: "location_msg \<Rightarrow> vec3" where
  "location_position l = (loc_x l, loc_y l, loc_yaw l)"

definition update_docking ::
  "env \<Rightarrow> time_point \<Rightarrow> robot_state \<Rightarrow> callback \<Rightarrow> handle \<Rightarrow> error + handle" where
  "update_docking env now state cb h =
     (if rs_task_id state \<noteq> mr_task_id (current_dock_request h) then
        Inr (if milliseconds 200 < now - dock_requested_time h
             then emit (Publish_mode (current_dock_request h))
                    (h\<lparr>dock_requested_time := now\<rparr>)
             else h)
      else if rs_mode state \<noteq> MODE_DOCKING then
        (let h1 = run_estimate_waypoint env (rs_location state) h
         in case dock_target_wp h1 of
              None \<Rightarrow> Inl Null_dereference
            | Some w \<Rightarrow>
                Inr ((emit (Call_dock_finished cb)
                       (h1\<lparr>travel_info := (travel_info h1)\<lparr>ti_last_known_wp := Some w\<rparr>\<rparr>))
                     \<lparr>dock_finished_callback := None\<rparr>))
      else if rs_path state \<noteq> [] \<and> seconds 1 < now - dock_schedule_time h then
        (let positions =
               location_position (rs_location state) # map location_position (rs_path state);
             trajectory =
               interpolate_positions env (loc_t (rs_location state)) positions
         in if length trajectory < 2 then Inr h
            else if get_participant env then
              Inr ((emit (Participant_set (loc_level_name (rs_location state)) trajectory) h)
                   \<lparr>dock_schedule_time := now\<rparr>)
            else Inr h)
      else Inr h)"

definition update_state ::
  "env \<Rightarrow> time_point \<Rightarrow> robot_state \<Rightarrow> handle \<Rightarrow> error + handle" where
  "update_state env now state h0 =
     (let h = record_state state h0
      in if ti_path_finished_callback (travel_info h) \<noteq> None then
           update_following env now state h
         else (case dock_finished_callback h of
                 Some cb \<Rightarrow> update_docking env now state cb h
               | None \<Rightarrow> Inr (run_estimate_state env (rs_location state) h)))"

subsection \<open>set_updater, actions and interruptions\<close>

definition set_updater :: "env \<Rightarrow> handle \<Rightarrow> handle" where
  "set_updater env h =
     emit Set_action_executor
       (emit (Enable_responsive_wait (enable_responsive_wait env)) h)"

definition set_action_execution :: "nat \<Rightarrow> handle \<Rightarrow> handle" where
  "set_action_execution a h = h\<lparr>action_execution := Some a\<rparr>"

definition complete_robot_action :: "handle \<Rightarrow> handle" where
  "complete_robot_action h =
     (case action_execution h of
        None \<Rightarrow> h
      | Some a \<Rightarrow>
          emit (Log (Action_completed (ti_robot_name (travel_info h))))
            ((emit (Call_action_finished a) h)\<lparr>action_execution := None\<rparr>))"

text \<open>
  The object returned by the updater's \<open>interrupt\<close> is a fresh number, taken from
  \<open>next_interruption\<close>; \<open>Resume\<close> names the object whose \<open>resume\<close> is called.
\<close>

definition handle_interrupt_request :: "interrupt_request \<Rightarrow> handle \<Rightarrow> handle" where
  "handle_interrupt_request request h =
     (case interruptions h (ir_interrupt_id request) of
        None \<Rightarrow>
          (if ir_type request = TYPE_RESUME then h
           else (emit (Interrupt (ir_labels request) (ir_interrupt_id request)
                         (next_interruption h)) h)
                \<lparr>interruptions :=
                   (interruptions h)(ir_interrupt_id request \<mapsto> next_interruption h),
                 next_interruption := Suc (next_interruption h)\<rparr>)
      | Some it \<Rightarrow>
          (if ir_type request = TYPE_INTERRUPT then h
           else (emit (Log (Asking_to_resume (ti_robot_name (travel_info h))
                              (ir_interrupt_id request)))
                  (emit (Resume it (ir_labels request)) h))
                \<lparr>interruptions := (interruptions h)(ir_interrupt_id request := None)\<rparr>))"

subsection \<open>newly_closed_lanes\<close>

text \<open>
  The body of the first loop for one approach lane \<open>l\<close> of the target waypoint that is
  in the closed set: the calls of \<open>update_position\<close> it makes.
\<close>

definition closed_lane_events ::
  "graph \<Rightarrow> robot_state option \<Rightarrow> nat \<Rightarrow> error + event list" where
  "closed_lane_events g lks l =
     (case get_lane g l of
        Inl e \<Rightarrow> Inl e
      | Inr lane \<Rightarrow>
          (case lks of
             None \<Rightarrow> Inl Null_dereference
           | Some st \<Rightarrow>
               (let loc = rs_location st; p = (loc_x loc, loc_y loc)
                in case get_waypoint g (lane_entry lane) of
                     Inl e \<Rightarrow> Inl e
                   | Inr wp0 \<Rightarrow>
                       (case get_waypoint g (lane_exit lane) of
                          Inl e \<Rightarrow> Inl e
                        | Inr wp1 \<Rightarrow>
                            (let p0 = wp_location wp0; p1 = wp_location wp1;
                                 before_blocked_lane =
                                   (dot (vsub p p0) (vsub p1 p0) < 0);
                                 after_blocked_lane =
                                   (dot (vsub p p1) (vsub p1 p0) \<ge> 0)
                             in if \<not> before_blocked_lane \<and> \<not> after_blocked_lane then
                                  (let position = (fst p, snd p, loc_yaw loc);
                                       return_waypoint = lane_entry lane
                                   in case lane_from g (lane_exit lane) (lane_entry lane) of
                                        Some reverse_lane \<Rightarrow>
                                          Inr [Update_position_lanes position [reverse_lane]]
                                      | None \<Rightarrow>
                                          Inr [Update_position_waypoint position
                                                 return_waypoint])
                                else Inr [])))))"

fun current_lanes_loop ::
  "graph \<Rightarrow> nat set \<Rightarrow> robot_state option \<Rightarrow> nat list \<Rightarrow> bool \<times> event list
    \<Rightarrow> error + (bool \<times> event list)" where
  "current_lanes_loop g closed_lanes lks [] acc = Inr acc"
| "current_lanes_loop g closed_lanes lks (l # ls) (need_to_replan, evs) =
     (if l \<in> closed_lanes then
        (case closed_lane_events g lks l of
           Inl e \<Rightarrow> Inl e
         | Inr es \<Rightarrow> current_lanes_loop g closed_lanes lks ls (True, evs @ es))
      else current_lanes_loop g closed_lanes lks ls (need_to_replan, evs))"

fun any_lane_closed :: "nat set \<Rightarrow> nat list \<Rightarrow> bool" where
  "any_lane_closed closed_lanes [] = False"
| "any_lane_closed closed_lanes (lane # rest) =
     (if lane \<in> closed_lanes then True else any_lane_closed closed_lanes rest)"

fun remaining_plan_closed :: "nat set \<Rightarrow> plan_waypoint list \<Rightarrow> bool" where
  "remaining_plan_closed closed_lanes [] = False"
| "remaining_plan_closed closed_lanes (wp # wps) =
     (if any_lane_closed closed_lanes (pw_approach_lanes wp) then True
      else remaining_plan_closed closed_lanes wps)"

definition newly_closed_lanes :: "nat set \<Rightarrow> handle \<Rightarrow> error + handle" where
  "newly_closed_lanes closed_lanes h =
     (let info = travel_info h
      in case ti_target_plan_index info of
           None \<Rightarrow> Inr h
         | Some next_index \<Rightarrow>
             (if next_index < length (ti_waypoints info) then
                (case current_lanes_loop (ti_graph info) closed_lanes (last_known_state h)
                        (pw_approach_lanes (ti_waypoints info ! next_index)) (False, []) of
                   Inl e \<Rightarrow> Inl e
                 | Inr (need1, evs) \<Rightarrow>
                     (let need_to_replan =
                            (if \<not> need1 then
                               remaining_plan_closed closed_lanes
                                 (drop next_index (ti_waypoints info))
                             else need1)
                      in Inr (h\<lparr>trace := trace h @ evs
                                  @ (if need_to_replan then [Replan] else [])\<rparr>)))
              else Inl Out_of_range))"

section \<open>The fleet: registration of robots\<close>

datatype dfg_type = Waypoint | Lane

record distance_from_graph_t =
  dfg_value :: real
  dfg_index :: nat
  dfg_type :: dfg_type

fun dfg_waypoints ::
  "vec2 \<Rightarrow> string \<Rightarrow> graph_waypoint list \<Rightarrow> nat \<Rightarrow> distance_from_graph_t option
    \<Rightarrow> distance_from_graph_t option" where
  "dfg_waypoints p map_name [] i output = output"
| "dfg_waypoints p map_name (wp # wps) i output =
     (if wp_map_name wp \<noteq> map_name then dfg_waypoints p map_name wps (Suc i) output
      else
        (let dist = vnorm (vsub (wp_location wp) p)
         in if (case output of None \<Rightarrow> True | Some out \<Rightarrow> dist < dfg_value out)
            then dfg_waypoints p map_name wps (Suc i)
                   (Some \<lparr>dfg_value = dist, dfg_index = i, dfg_type = Waypoint\<rparr>)
            else dfg_waypoints p map_name wps (Suc i) output))"

fun dfg_lanes ::
  "graph \<Rightarrow> vec2 \<Rightarrow> string \<Rightarrow> graph_lane list \<Rightarrow> nat \<Rightarrow> distance_from_graph_t option
    \<Rightarrow> error + distance_from_graph_t option" where
  "dfg_lanes g p map_name [] i output = Inr output"
| "dfg_lanes g p map_name (lane # rest) i output =
     (case get_waypoint g (lane_entry lane) of
        Inl e \<Rightarrow> Inl e
      | Inr wp0 \<Rightarrow>
          (case get_waypoint g (lane_exit lane) of
             Inl e \<Rightarrow> Inl e
           | Inr wp1 \<Rightarrow>
               (if map_name \<noteq> wp_map_name wp0 \<and> map_name \<noteq> wp_map_name wp1
                then dfg_lanes g p map_name rest (Suc i) output
                else
                  (let p0 = wp_location wp0; p1 = wp_location wp1;
                       dp = vsub p p0; dp1 = vsub p1 p0;
                       lane_length = vnorm dp1
                   in if lane_length < 1 / 10 ^ 8
                      then dfg_lanes g p map_name rest (Suc i) output
                      else
                        (let u = dot dp dp1 / lane_length
                         in if u < 0 \<or> lane_length < u
                            then dfg_lanes g p map_name rest (Suc i) output
                            else
                              (let dist = vnorm (vsub dp (vscale (u / lane_length) dp1))
                               in if (case output of
                                        None \<Rightarrow> True
                                      | Some out \<Rightarrow> dist < dfg_value out)
                                  then dfg_lanes g p map_name rest (Suc i)
                                         (Some \<lparr>dfg_value = dist, dfg_index = i,
                                                dfg_type = Lane\<rparr>)
                                  else dfg_lanes g p map_name rest (Suc i) output))))))"

definition distance_from_graph ::
  "location_msg \<Rightarrow> graph \<Rightarrow> error + distance_from_graph_t option" where
  "distance_from_graph l g =
     dfg_lanes g (loc_x l, loc_y l) (loc_level_name l) (g_lanes g) 0
       (dfg_waypoints (loc_x l, loc_y l) (loc_level_name l) (g_waypoints g) 0 None)"

type_synonym plan_start = nat

datatype hint =
    No_waypoints_on_map string
  | Closest_lane nat string string real
  | Closest_waypoint string real

datatype fleet_event =
    Compute_plan_starts string vec3 int
  | Unable_to_compute_start_set string string vec3 string hint
  | Fleet_add_robot string "plan_start list"

text \<open>
  \<open>robots\<close> maps a name to a pointer to a handle: \<open>Some None\<close> is a key whose pointer
  is null. The calls of \<open>compute_plan_starts\<close>, of the error log of \<open>add_robot\<close> and of
  the fleet's \<open>add_robot\<close> are the \<open>fleet_trace\<close>.
\<close>

record connections =
  graph :: graph
  robots :: "string \<rightharpoonup> handle option"
  fleet_trace :: "fleet_event list"

text \<open>
  \<open>compute_plan_starts\<close> of rmf_traffic is a parameter: it is given the graph, the map
  name, the pose and the time.
\<close>

type_synonym plan_starts_fn = "graph \<Rightarrow> string \<Rightarrow> vec3 \<Rightarrow> int \<Rightarrow> plan_start list"

definition to_name :: "graph \<Rightarrow> nat \<Rightarrow> error + string" where
  "to_name g index =
     (case get_waypoint g index of
        Inl e \<Rightarrow> Inl e
      | Inr wp \<Rightarrow>
          Inr (case wp_name wp of Some n \<Rightarrow> n | None \<Rightarrow> ''#'' @ to_string index))"

definition make_hint :: "graph \<Rightarrow> location_msg \<Rightarrow> error + hint" where
  "make_hint g l =
     (case distance_from_graph l g of
        Inl e \<Rightarrow> Inl e
      | Inr None \<Rightarrow> Inr (No_waypoints_on_map (loc_level_name l))
      | Inr (Some distance) \<Rightarrow>
          (if dfg_type distance = Lane then
             (case get_lane g (dfg_index distance) of
                Inl e \<Rightarrow> Inl e
              | Inr lane \<Rightarrow>
                  (case to_name g (lane_entry lane) of
                     Inl e \<Rightarrow> Inl e
                   | Inr n0 \<Rightarrow>
                       (case to_name g (lane_exit lane) of
                          Inl e \<Rightarrow> Inl e
                        | Inr n1 \<Rightarrow>
                            Inr (Closest_lane (dfg_index distance) n0 n1
                                   (dfg_value distance)))))
           else
             (case to_name g (dfg_index distance) of
                Inl e \<Rightarrow> Inl e
              | Inr n \<Rightarrow> Inr (Closest_waypoint n (dfg_value distance)))))"

text \<open>
  \<open>Connections::add_robot\<close>. The callback given to the fleet's \<open>add_robot\<close> runs later,
  when the fleet has made the updater: it is the operation \<open>robot_added\<close>.
\<close>

definition add_robot ::
  "plan_starts_fn \<Rightarrow> int \<Rightarrow> string \<Rightarrow> robot_state \<Rightarrow> connections
    \<Rightarrow> error + connections" where
  "add_robot compute_plan_starts node_now fleet_name state c =
     (let l = rs_location state;
          pose = (loc_x l, loc_y l, loc_yaw l);
          starts = compute_plan_starts (graph c) (loc_level_name l) pose node_now;
          c1 = c\<lparr>fleet_trace := fleet_trace c
                   @ [Compute_plan_starts (loc_level_name l) pose node_now]\<rparr>
      in if starts = [] then
           (case make_hint (graph c) l of
              Inl e \<Rightarrow> Inl e
            | Inr h \<Rightarrow>
                Inr (c1\<lparr>fleet_trace := fleet_trace c1
                          @ [Unable_to_compute_start_set (rs_name state)
                               (loc_level_name l) pose fleet_name h]\<rparr>))
         else
           Inr (c1\<lparr>fleet_trace := fleet_trace c1
                     @ [Fleet_add_robot (rs_name state) starts]\<rparr>))"

definition robot_added ::
  "env \<Rightarrow> time_point \<Rightarrow> string \<Rightarrow> string \<Rightarrow> connections \<Rightarrow> connections" where
  "robot_added env created fleet_name robot_name c =
     c\<lparr>robots := (robots c)
         (robot_name \<mapsto> Some (set_updater env
            (make_handle created fleet_name robot_name (graph c))))\<rparr>"

text \<open>The body of the loop of the \<open>fleet_state_sub\<close> callback for one robot state.\<close>

definition fleet_state_robot ::
  "plan_starts_fn \<Rightarrow> env \<Rightarrow> time_point \<Rightarrow> int \<Rightarrow> string \<Rightarrow> robot_state \<Rightarrow> connections
    \<Rightarrow> error + connections" where
  "fleet_state_robot compute_plan_starts env now node_now fleet_name state c =
     (let new_robot = (robots c (rs_name state) = None);
          c1 = (if new_robot then c\<lparr>robots := (robots c)(rs_name state \<mapsto> None)\<rparr> else c)
      in case (if new_robot then add_robot compute_plan_starts node_now fleet_name state c1
               else Inr c1) of
           Inl e \<Rightarrow> Inl e
         | Inr c2 \<Rightarrow>
             (case robots c2 (rs_name state) of
                Some (Some command) \<Rightarrow>
                  (case update_state env now state command of
                     Inl e \<Rightarrow> Inl e
                   | Inr command' \<Rightarrow>
                       Inr (c2\<lparr>robots := (robots c2)(rs_name state \<mapsto> Some command')\<rparr>))
              | _ \<Rightarrow> Inr c2))"

fun fleet_state_loop ::
  "plan_starts_fn \<Rightarrow> env \<Rightarrow> time_point \<Rightarrow> int \<Rightarrow> string \<Rightarrow> robot_state list
    \<Rightarrow> connections \<Rightarrow> error + connections" where
  "fleet_state_loop cps env now node_now fleet_name [] c = Inr c"
| "fleet_state_loop cps env now node_now fleet_name (state # rest) c =
     (case fleet_state_robot cps env now node_now fleet_name state c of
        Inl e \<Rightarrow> Inl e
      | Inr c' \<Rightarrow> fleet_state_loop cps env now node_now fleet_name rest c')"

definition fleet_state_callback ::
  "plan_starts_fn \<Rightarrow> env \<Rightarrow> time_point \<Rightarrow> int \<Rightarrow> string \<Rightarrow> fleet_state \<Rightarrow> connections
    \<Rightarrow> error + connections" where
  "fleet_state_callback cps env now node_now fleet_name msg c =
     (if fs_name msg \<noteq> fleet_name then Inr c
      else fleet_state_loop cps env now node_now fleet_name (fs_robots msg) c)"

section \<open>Notions used in the properties\<close>

text \<open>The events an operation appended: the trace after it without the trace before.\<close>

definition emitted :: "handle \<Rightarrow> handle \<Rightarrow> event list" where
  "emitted h h' = drop (length (trace h)) (trace h')"

text \<open>
  Kinds of events: a publication on one of the two command topics, and an itinerary
  set on the schedule participant.
\<close>

fun is_publish :: "event \<Rightarrow> bool" where
  "is_publish (Publish_path r) = True"
| "is_publish (Publish_mode r) = True"
| "is_publish e = False"

fun is_participant_set :: "event \<Rightarrow> bool" where
  "is_participant_set (Participant_set level trajectory) = True"
| "is_participant_set e = False"

definition schedule_pushed :: "handle \<Rightarrow> handle \<Rightarrow> bool" where
  "schedule_pushed h h' = (filter is_participant_set (emitted h h') \<noteq> [])"

text \<open>
  The clock readings, in a run of \<open>update_state\<close> calls, of the calls that set an
  itinerary; \<open>spaced prev ts\<close> says that each reading of \<open>ts\<close> is more than one second
  after the one before it, the first one after \<open>prev\<close>.
\<close>

fun push_times :: "env \<Rightarrow> (time_point \<times> robot_state) list \<Rightarrow> handle \<Rightarrow> time_point list" where
  "push_times env [] h = []"
| "push_times env ((now, st) # rest) h =
     (case update_state env now st h of
        Inl e \<Rightarrow> []
      | Inr h' \<Rightarrow> (if schedule_pushed h h' then [now] else []) @ push_times env rest h')"

fun spaced :: "time_point \<Rightarrow> time_point list \<Rightarrow> bool" where
  "spaced prev [] = True"
| "spaced prev (t # ts) = (seconds 1 < t - prev \<and> spaced t ts)"

text \<open>
  A run of \<open>update_state\<close> calls, and the runs in which every call finds the path
  command acknowledged (the callbacks of a followed path are set and the state echoes
  the task id of the path request) and reports the mode AdapterError.
\<close>

fun update_states ::
  "env \<Rightarrow> (time_point \<times> robot_state) list \<Rightarrow> handle \<Rightarrow> error + handle" where
  "update_states env [] h = Inr h"
| "update_states env ((now, st) # rest) h =
     (case update_state env now st h of
        Inl e \<Rightarrow> Inl e
      | Inr h' \<Rightarrow> update_states env rest h')"

definition acknowledged_error :: "handle \<Rightarrow> robot_state \<Rightarrow> bool" where
  "acknowledged_error h st =
     (ti_path_finished_callback (travel_info h) \<noteq> None
      \<and> dock_finished_callback h = None
      \<and> ti_next_arrival_estimator (travel_info h) \<noteq> None
      \<and> rs_task_id st = pr_task_id (current_path_request h)
      \<and> rs_mode st = MODE_ADAPTER_ERROR)"

fun acknowledged_error_run ::
  "env \<Rightarrow> (time_point \<times> robot_state) list \<Rightarrow> handle \<Rightarrow> bool" where
  "acknowledged_error_run env [] h = True"
| "acknowledged_error_run env ((now, st) # rest) h =
     (acknowledged_error h st
      \<and> (case update_state env now st h of
            Inl e \<Rightarrow> False
          | Inr h' \<Rightarrow> acknowledged_error_run env rest h'))"

text \<open>
  The length of a lane and the parameter \<open>u\<close> of a position along it, as
  \<open>distance_from_graph\<close> computes them: \<open>u = dp.dot(dp1) / lane_length\<close>.
\<close>

definition lane_length :: "vec2 \<Rightarrow> vec2 \<Rightarrow> real" where
  "lane_length p0 p1 = vnorm (vsub p1 p0)"

definition lane_param :: "vec2 \<Rightarrow> vec2 \<Rightarrow> vec2 \<Rightarrow> real" where
  "lane_param p p0 p1 = dot (vsub p p0) (vsub p1 p0) / lane_length p0 p1"

text \<open>
  A lane index of the graph whose two waypoints are waypoints of the graph.
\<close>

definition valid_lane :: "graph \<Rightarrow> nat \<Rightarrow> bool" where
  "valid_lane g l =
     (l < length (g_lanes g)
      \<and> lane_entry (g_lanes g ! l) < length (g_waypoints g)
      \<and> lane_exit (g_lanes g ! l) < length (g_waypoints g))"

text \<open>
  The calls of the updater's \<open>update_position\<close>.
\<close>

fun is_update_position :: "event \<Rightarrow> bool" where
  "is_update_position (Update_position_lanes p ls) = True"
| "is_update_position (Update_position_waypoint p w) = True"
| "is_update_position e = False"

text \<open>
  The position of the last known state, the two end points of lane \<open>l\<close>, and the call
  of \<open>update_position\<close> for a robot on the closed lane \<open>l\<close>: on the reverse lane when
  \<open>lane_from\<close> finds one, else with the entry waypoint of \<open>l\<close>.
\<close>

definition robot_xy :: "robot_state \<Rightarrow> vec2" where
  "robot_xy st = (loc_x (rs_location st), loc_y (rs_location st))"

definition lane_p0 :: "graph \<Rightarrow> nat \<Rightarrow> vec2" where
  "lane_p0 g l = wp_location (g_waypoints g ! lane_entry (g_lanes g ! l))"

definition lane_p1 :: "graph \<Rightarrow> nat \<Rightarrow> vec2" where
  "lane_p1 g l = wp_location (g_waypoints g ! lane_exit (g_lanes g ! l))"

definition stranded_update :: "graph \<Rightarrow> robot_state \<Rightarrow> nat \<Rightarrow> event" where
  "stranded_update g st l =
     (case lane_from g (lane_exit (g_lanes g ! l)) (lane_entry (g_lanes g ! l)) of
        Some reverse_lane \<Rightarrow>
          Update_position_lanes
            (loc_x (rs_location st), loc_y (rs_location st), loc_yaw (rs_location st))
            [reverse_lane]
      | None \<Rightarrow>
          Update_position_waypoint
            (loc_x (rs_location st), loc_y (rs_location st), loc_yaw (rs_location st))
            (lane_entry (g_lanes g ! l)))"

text \<open>
  The handles that the operations of the class produce from a newly constructed one,
  for given estimation functions. An operation that fails (an \<open>Inl\<close> result) produces
  no handle.
\<close>

inductive reachable :: "env \<Rightarrow> handle \<Rightarrow> bool" for env :: env where
  created: "reachable env (make_handle now fleet_name robot_name g)"
| after_set_updater: "reachable env h \<Longrightarrow> reachable env (set_updater env h)"
| after_follow_new_path:
    "reachable env h \<Longrightarrow> follow_new_path now wps est cb h = Inr h' \<Longrightarrow> reachable env h'"
| after_stop: "reachable env h \<Longrightarrow> reachable env (stop now h)"
| after_dock: "reachable env h \<Longrightarrow> dock now dock_name cb h = Inr h' \<Longrightarrow> reachable env h'"
| after_update_state:
    "reachable env h \<Longrightarrow> update_state env now st h = Inr h' \<Longrightarrow> reachable env h'"
| after_newly_closed_lanes:
    "reachable env h \<Longrightarrow> newly_closed_lanes cls h = Inr h' \<Longrightarrow> reachable env h'"
| after_set_action_execution:
    "reachable env h \<Longrightarrow> reachable env (set_action_execution a h)"
| after_complete_robot_action:
    "reachable env h \<Longrightarrow> reachable env (complete_robot_action h)"
| after_handle_interrupt_request:
    "reachable env h \<Longrightarrow> reachable env (handle_interrupt_request r h)"

text \<open>
  The connections after a robot state whose start set is empty was seen for a new
  name: the name is a key of \<open>robots\<close> with a null handle, and the trace has the call
  of \<open>compute_plan_starts\<close> and the error log with its hint; no \<open>add_robot\<close> of the
  fleet is called.
\<close>

definition rejected ::
  "int \<Rightarrow> string \<Rightarrow> robot_state \<Rightarrow> hint \<Rightarrow> connections \<Rightarrow> connections" where
  "rejected node_now fleet_name st hint c =
     c\<lparr>robots := (robots c)(rs_name st \<mapsto> None),
       fleet_trace := fleet_trace c @
         [Compute_plan_starts (loc_level_name (rs_location st))
            (location_position (rs_location st)) node_now,
          Unable_to_compute_start_set (rs_name st) (loc_level_name (rs_location st))
            (location_position (rs_location st)) fleet_name hint]\<rparr>"

text \<open>
  The candidates of \<open>distance_from_graph\<close>: the distance to a waypoint, the lanes it
  admits (an end point on the map, a length of at least 1e-8, and
  \<open>0 \<le> u \<le> \<parallel>lane\<parallel>\<close>) and the distance to such a lane.
\<close>

definition waypoint_distance :: "vec2 \<Rightarrow> graph_waypoint \<Rightarrow> real" where
  "waypoint_distance p wp = vnorm (vsub (wp_location wp) p)"

definition lane_admits :: "graph \<Rightarrow> vec2 \<Rightarrow> string \<Rightarrow> graph_lane \<Rightarrow> bool" where
  "lane_admits g p map_name lane =
     (case get_waypoint g (lane_entry lane) of
        Inl e \<Rightarrow> False
      | Inr wp0 \<Rightarrow>
          (case get_waypoint g (lane_exit lane) of
             Inl e \<Rightarrow> False
           | Inr wp1 \<Rightarrow>
               (map_name = wp_map_name wp0 \<or> map_name = wp_map_name wp1)
               \<and> 1 / 10 ^ 8 \<le> lane_length (wp_location wp0) (wp_location wp1)
               \<and> 0 \<le> lane_param p (wp_location wp0) (wp_location wp1)
               \<and> lane_param p (wp_location wp0) (wp_location wp1)
                   \<le> lane_length (wp_location wp0) (wp_location wp1)))"

definition lane_distance :: "graph \<Rightarrow> vec2 \<Rightarrow> graph_lane \<Rightarrow> real" where
  "lane_distance g p lane =
     (case get_waypoint g (lane_entry lane) of
        Inl e \<Rightarrow> 0
      | Inr wp0 \<Rightarrow>
          (case get_waypoint g (lane_exit lane) of
             Inl e \<Rightarrow> 0
           | Inr wp1 \<Rightarrow>
               vnorm (vsub (vsub p (wp_location wp0))
                 (vscale (lane_param p (wp_location wp0) (wp_location wp1)
                            / lane_length (wp_location wp0) (wp_location wp1))
                    (vsub (wp_location wp1) (wp_location wp0))))))"

text \<open>
  The name that the hint gives to a waypoint: its name, or \<open>#\<close> and its index.
\<close>

definition waypoint_label :: "graph \<Rightarrow> nat \<Rightarrow> string" where
  "waypoint_label g index =
     (case wp_name (g_waypoints g ! index) of
        Some n \<Rightarrow> n
      | None \<Rightarrow> ''#'' @ to_string index)"

section \<open>Concrete inputs\<close>

text \<open>
  A graph with two waypoints on the map L1, one unit apart, the lane 0 from the first to
  the second and the lane 1 back, which is also the lane into the dock \<open>d\<close>; a plan of
  two waypoints along lane 0; and stand-ins for the estimation functions: the first two
  leave the travel information as it is, \<open>check_path_finish\<close> clears the two callbacks
  and \<open>estimate_path_traveling\<close> sets the target index from the length of the
  remaining path.
\<close>

definition ex_graph :: graph where
  "ex_graph =
     \<lparr>g_waypoints =
        [\<lparr>wp_map_name = ''L1'', wp_location = (0, 0), wp_name = Some ''W0''\<rparr>,
         \<lparr>wp_map_name = ''L1'', wp_location = (1, 0), wp_name = None\<rparr>],
      g_lanes =
        [\<lparr>lane_entry = 0, lane_exit = 1, lane_entry_event = None,
          lane_speed_limit = None\<rparr>,
         \<lparr>lane_entry = 1, lane_exit = 0, lane_entry_event = Some (Dock ''d''),
          lane_speed_limit = Some (1 / 2)\<rparr>]\<rparr>"

definition ex_env :: env where
  "ex_env =
     \<lparr>estimate_state = (\<lambda>l info. info),
      estimate_waypoint = (\<lambda>l info. info),
      check_path_finish = (\<lambda>st info.
        info\<lparr>ti_next_arrival_estimator := None, ti_path_finished_callback := None\<rparr>),
      estimate_path_traveling = (\<lambda>st info.
        info\<lparr>ti_target_plan_index :=
               Some (length (ti_waypoints info) - length (rs_path st))\<rparr>),
      interpolate_positions = (\<lambda>t ps. map (\<lambda>p. (t, p)) ps),
      get_participant = True,
      enable_responsive_wait = True\<rparr>"

definition ex_location :: "real \<Rightarrow> real \<Rightarrow> location_msg" where
  "ex_location x y =
     \<lparr>loc_t = 0, loc_x = x, loc_y = y, loc_yaw = 0, loc_level_name = ''L1'',
      loc_obey_approach_speed_limit = False, loc_approach_speed_limit = 0\<rparr>"

definition ex_state ::
  "string \<Rightarrow> robot_mode \<Rightarrow> real \<Rightarrow> location_msg \<Rightarrow> location_msg list \<Rightarrow> robot_state" where
  "ex_state task_id mode battery l path =
     \<lparr>rs_name = ''r1'', rs_task_id = task_id, rs_mode = mode,
      rs_battery_percent = battery, rs_location = l, rs_path = path\<rparr>"

definition ex_plan :: "plan_waypoint list" where
  "ex_plan =
     [\<lparr>pw_position = (0, 0, 0), pw_time = 0, pw_graph_index = Some 0,
       pw_approach_lanes = []\<rparr>,
      \<lparr>pw_position = (1, 0, 0), pw_time = 10, pw_graph_index = Some 1,
       pw_approach_lanes = [0]\<rparr>]"

definition ex_handle :: handle where
  "ex_handle = make_handle 0 ''fleet'' ''r1'' ex_graph"

definition ex_idle_after :: handle where
  "ex_idle_after =
     run_estimate_state ex_env (ex_location 0 0)
       (record_state (ex_state [] MODE_IDLE 150 (ex_location 0 0) []) ex_handle)"

definition ex_following :: handle where
  "ex_following =
     (case follow_new_path 0 ex_plan (Some 1) (Some 2) ex_handle of
        Inr h \<Rightarrow> h
      | Inl e \<Rightarrow> ex_handle)"

definition ex_request :: "interrupt_type \<Rightarrow> string list \<Rightarrow> interrupt_request" where
  "ex_request ty labels =
     \<lparr>ir_fleet_name = ''fleet'', ir_robot_name = ''r1'', ir_interrupt_id = ''x'',
      ir_labels = labels, ir_type = ty\<rparr>"

definition ex_interrupted :: handle where
  "ex_interrupted = handle_interrupt_request (ex_request TYPE_INTERRUPT [''a'']) ex_handle"

definition ex_docking :: handle where
  "ex_docking =
     (case dock 0 ''d'' (Some 3) ex_handle of Inr h \<Rightarrow> h | Inl e \<Rightarrow> ex_handle)"

definition ex_unacked_state :: robot_state where
  "ex_unacked_state = ex_state ''0'' MODE_MOVING 50 (ex_location 0 0) []"

definition ex_unacked :: handle where
  "ex_unacked =
     (case update_state ex_env 200000000 ex_unacked_state ex_following of
        Inr h \<Rightarrow> h | Inl e \<Rightarrow> ex_following)"

definition ex_docking_state :: robot_state where
  "ex_docking_state = ex_state ''1'' MODE_DOCKING 50 (ex_location 1 0) [ex_location 0 0]"

definition ex_docking_run :: "(time_point \<times> robot_state) list" where
  "ex_docking_run =
     [(2000000000, ex_docking_state), (2500000000, ex_docking_state),
      (3500000000, ex_docking_state)]"

definition ex_error_state :: robot_state where
  "ex_error_state = ex_state ''1'' MODE_ADAPTER_ERROR 50 (ex_location 0 0) []"

definition ex_error_run :: "(time_point \<times> robot_state) list" where
  "ex_error_run = [(10, ex_error_state), (20, ex_error_state), (30, ex_error_state)]"

text \<open>
  The handle following \<open>ex_plan\<close> after an acknowledged state of a moving robot at
  \<open>(x, 0)\<close> with one location left on its path: the target index is 1.
\<close>

definition ex_traveling :: "real \<Rightarrow> handle" where
  "ex_traveling x =
     (case update_state ex_env 1
             (ex_state ''1'' MODE_MOVING 50 (ex_location x 0) [ex_location 1 0])
             ex_following of
        Inr h \<Rightarrow> h
      | Inl e \<Rightarrow> ex_following)"

definition ex_traveling_state :: "real \<Rightarrow> robot_state" where
  "ex_traveling_state x = ex_state ''1'' MODE_MOVING 50 (ex_location x 0) [ex_location 1 0]"

text \<open>
  A \<open>compute_plan_starts\<close> that finds no start, a robot state on the map L2, which
  has no waypoint, a robot state on L1 one unit past the second waypoint, and connections without
  robots.
\<close>

definition ex_no_starts :: plan_starts_fn where
  "ex_no_starts g map_name pose t = []"

definition ex_lost_state :: robot_state where
  "ex_lost_state =
     ex_state [] MODE_IDLE 50 ((ex_location 0 0)\<lparr>loc_level_name := ''L2''\<rparr>) []"

definition ex_connections :: connections where
  "ex_connections = \<lparr>graph = ex_graph, robots = Map.empty, fleet_trace = []\<rparr>"

definition ex_rejected :: connections where
  "ex_rejected =
     \<lparr>graph = ex_graph, robots = [''r1'' \<mapsto> None],
      fleet_trace =
        [Compute_plan_starts ''L2'' (0, 0, 0) 0,
         Unable_to_compute_start_set ''r1'' ''L2'' (0, 0, 0) ''fleet''
           (No_waypoints_on_map ''L2'')]\<rparr>"

definition ex_near_state :: robot_state where
  "ex_near_state = ex_state [] MODE_IDLE 50 (ex_location 2 0) []"

text \<open>
  The handle of \<open>ex_following\<close> after an AdapterError state and then a Moving state,
  both acknowledged, and that handle after the run \<open>ex_error_run\<close>.
\<close>

definition ex_resumed :: handle where
  "ex_resumed =
     (case update_states ex_env [(5, ex_error_state), (6, ex_traveling_state (1 / 2))]
             ex_following of
        Inr h \<Rightarrow> h
      | Inl e \<Rightarrow> ex_following)"

definition ex_resumed_after :: handle where
  "ex_resumed_after =
     (case update_states ex_env ex_error_run ex_resumed of
        Inr h \<Rightarrow> h
      | Inl e \<Rightarrow> ex_resumed)"

section \<open>Verified properties\<close>

subsection \<open>The start of update_state\<close>

lemma trace_emit [simp]: "trace (emit e h) = trace h @ [e]"
  by (simp add: emit_def)

lemma record_state_eq:
  "record_state st h =
     h\<lparr>last_known_state := Some st,
       trace := trace h @
         [if 0 \<le> rs_battery_percent st / 100 \<and> rs_battery_percent st / 100 \<le> 1
          then Update_battery_soc (rs_battery_percent st / 100)
          else Log Battery_out_of_range],
       travel_info := (travel_info h)\<lparr>ti_target_plan_index := None\<rparr>\<rparr>"
  by (simp add: record_state_def emit_def Let_def)

lemma record_state_sel [simp]:
  "ti_path_finished_callback (travel_info (record_state st h)) =
     ti_path_finished_callback (travel_info h)"
  "dock_finished_callback (record_state st h) = dock_finished_callback h"
  by (simp_all add: record_state_eq)

lemma update_following_trace:
  "update_following env now st h = Inr h' \<Longrightarrow>
     \<exists>rest. trace h' = trace h @ rest \<and> (\<forall>r. Update_battery_soc r \<notin> set rest)"
  by (auto simp: update_following_def run_estimate_state_def run_check_path_finish_def
      run_estimate_path_traveling_def emit_def split: if_splits)

lemma update_docking_trace:
  "update_docking env now st cb h = Inr h' \<Longrightarrow>
     \<exists>rest. trace h' = trace h @ rest \<and> (\<forall>r. Update_battery_soc r \<notin> set rest)"
  by (auto simp: update_docking_def run_estimate_waypoint_def emit_def Let_def
      split: if_splits option.splits)

lemma update_state_unfold:
  "update_state env now st h =
     (if ti_path_finished_callback (travel_info h) \<noteq> None
      then update_following env now st (record_state st h)
      else (case dock_finished_callback h of
              Some cb \<Rightarrow> update_docking env now st cb (record_state st h)
            | None \<Rightarrow> Inr (run_estimate_state env (rs_location st) (record_state st h))))"
  by (simp add: update_state_def Let_def record_state_sel)

text \<open>
  C6. A call of \<open>update_state\<close> that returns has appended, first of all, the call
  \<open>update_battery_soc (battery_percent / 100)\<close> when that quotient is in [0, 1] and
  the error log otherwise; nothing it appends later is a call of \<open>update_battery_soc\<close>,
  so an invalid value is dropped, not clamped. In both cases the snapshot is recorded and
  the dispatch on the callbacks runs on the state so prepared.
\<close>

theorem update_state_battery_soc:
  assumes ok: "update_state env now st h = Inr h'"
  shows "(\<exists>rest. trace h' = trace h @
            (if 0 \<le> rs_battery_percent st / 100 \<and> rs_battery_percent st / 100 \<le> 1
             then Update_battery_soc (rs_battery_percent st / 100)
             else Log Battery_out_of_range) # rest
          \<and> (\<forall>r. Update_battery_soc r \<notin> set rest))
    \<and> last_known_state (record_state st h) = Some st
    \<and> Inr h' =
       (if ti_path_finished_callback (travel_info h) \<noteq> None
        then update_following env now st (record_state st h)
        else (case dock_finished_callback h of
                Some cb \<Rightarrow> update_docking env now st cb (record_state st h)
              | None \<Rightarrow> Inr (run_estimate_state env (rs_location st) (record_state st h))))"
proof (intro conjI)
  let ?b = "if 0 \<le> rs_battery_percent st / 100 \<and> rs_battery_percent st / 100 \<le> 1
           then Update_battery_soc (rs_battery_percent st / 100)
           else Log Battery_out_of_range"
  have tr: "trace (record_state st h) = trace h @ [?b]"
    by (simp add: record_state_eq)
  have "\<exists>rest. trace h' = trace (record_state st h) @ rest
          \<and> (\<forall>r. Update_battery_soc r \<notin> set rest)"
  proof (cases "ti_path_finished_callback (travel_info h) \<noteq> None")
    case True
    with ok have "update_following env now st (record_state st h) = Inr h'"
      by (simp add: update_state_unfold)
    then show ?thesis by (rule update_following_trace)
  next
    case False
    show ?thesis
    proof (cases "dock_finished_callback h")
      case None
      with False ok have "h' = run_estimate_state env (rs_location st) (record_state st h)"
        by (simp add: update_state_unfold)
      then show ?thesis by (simp add: run_estimate_state_def emit_def)
    next
      case (Some cb)
      with False ok have "update_docking env now st cb (record_state st h) = Inr h'"
        by (simp add: update_state_unfold)
      then show ?thesis by (rule update_docking_trace)
    qed
  qed
  then obtain rest where "trace h' = trace (record_state st h) @ rest"
    and "\<forall>r. Update_battery_soc r \<notin> set rest" by blast
  then show "\<exists>rest. trace h' = trace h @ ?b # rest \<and> (\<forall>r. Update_battery_soc r \<notin> set rest)"
    using tr by auto
next
  show "last_known_state (record_state st h) = Some st"
    by (simp add: record_state_eq)
next
  show "Inr h' =
       (if ti_path_finished_callback (travel_info h) \<noteq> None
        then update_following env now st (record_state st h)
        else (case dock_finished_callback h of
                Some cb \<Rightarrow> update_docking env now st cb (record_state st h)
              | None \<Rightarrow> Inr (run_estimate_state env (rs_location st) (record_state st h))))"
    using ok update_state_unfold [of env now st h] by simp
qed

lemma ex_handle_idle [simp]:
  "ti_path_finished_callback (travel_info ex_handle) = None"
  "dock_finished_callback ex_handle = None"
  "last_known_state ex_handle = None"
  "trace ex_handle = []"
  by (simp_all add: ex_handle_def make_handle_def)

text \<open>A battery value of 150 percent received by an idle handle.\<close>

theorem update_state_battery_soc_witness:
  "update_state ex_env 0 (ex_state [] MODE_IDLE 150 (ex_location 0 0) []) ex_handle
     = Inr ex_idle_after
   \<and> (\<exists>rest. trace ex_idle_after = Log Battery_out_of_range # rest
        \<and> (\<forall>r. Update_battery_soc r \<notin> set rest))"
proof -
  have ok: "update_state ex_env 0 (ex_state [] MODE_IDLE 150 (ex_location 0 0) []) ex_handle
     = Inr ex_idle_after"
    by (simp add: update_state_unfold ex_idle_after_def ex_state_def)
  from update_state_battery_soc [OF ok] show ?thesis
    using ok by (simp add: ex_state_def)
qed

subsection \<open>stop without a known state\<close>

lemma to_string_1: "to_string (Suc 0) = ''1''"
  by (simp add: to_string.simps digit_char_def)

lemma path_locations_ex:
  "path_locations ex_graph ex_plan =
     Inr [ex_location 0 0,
          (ex_location 1 0)\<lparr>loc_t := 10\<rparr>]"
  by (simp add: ex_plan_def ex_graph_def path_location_def get_waypoint_def get_lane_def
      ex_location_def)

lemma follow_ex:
  "follow_new_path 0 ex_plan (Some 1) (Some 2) ex_handle = Inr ex_following"
  by (simp add: ex_following_def follow_new_path_def Let_def path_locations_ex
      ex_handle_def make_handle_def clear_last_command_def)

lemma ex_following_sel [simp]:
  "ti_path_finished_callback (travel_info ex_following) = Some 2"
  "ti_next_arrival_estimator (travel_info ex_following) = Some 1"
  "dock_finished_callback ex_following = None"
  "last_known_state ex_following = None"
  "interrupted ex_following = False"
  "path_requested_time ex_following = 0"
  "pr_task_id (current_path_request ex_following) = ''1''"
  "ti_waypoints (travel_info ex_following) = ex_plan"
  "ti_graph (travel_info ex_following) = ex_graph"
  "current_task_id ex_following = 1"
  by (simp_all add: ex_following_def follow_new_path_def Let_def path_locations_ex
      ex_handle_def make_handle_def clear_last_command_def emit_def next_task_id_def to_string_1)

text \<open>
  C10. When no state has ever been received, \<open>stop\<close> only clears the arrival
  estimator and the two completion callbacks and logs a warning: it publishes nothing
  and leaves the task-id counter and the path request as they were. The callbacks being
  cleared, every later \<open>update_state\<close> takes the branch of a robot that is not under
  command, which calls \<open>estimate_state\<close> and no callback.
\<close>

theorem stop_without_state:
  assumes "last_known_state h = None"
  shows "stop now h =
           (clear_last_command h)
             \<lparr>trace := trace h @ [Log (Cannot_stop (ti_robot_name (travel_info h)))]\<rparr>
    \<and> current_task_id (stop now h) = current_task_id h
    \<and> current_path_request (stop now h) = current_path_request h
    \<and> ti_next_arrival_estimator (travel_info (stop now h)) = None
    \<and> ti_path_finished_callback (travel_info (stop now h)) = None
    \<and> dock_finished_callback (stop now h) = None
    \<and> update_state env now' st (stop now h) =
        Inr (run_estimate_state env (rs_location st) (record_state st (stop now h)))"
  using assms
  by (simp add: stop_def clear_last_command_def emit_def update_state_unfold)

text \<open>A handle that was given a path and has received no state yet.\<close>

theorem stop_without_state_witness:
  "last_known_state ex_following = None
   \<and> ti_path_finished_callback (travel_info ex_following) = Some 2
   \<and> ti_path_finished_callback (travel_info (stop 5 ex_following)) = None
   \<and> emitted ex_following (stop 5 ex_following) = [Log (Cannot_stop ''r1'')]
   \<and> current_task_id (stop 5 ex_following) = 1"
proof -
  have n: "last_known_state ex_following = None" by simp
  have r: "ti_robot_name (travel_info ex_following) = ''r1''"
    by (simp add: ex_following_def follow_new_path_def Let_def path_locations_ex
      ex_handle_def make_handle_def clear_last_command_def emit_def)
  have t: "trace (clear_last_command ex_following) = trace ex_following"
    by (simp add: clear_last_command_def)
  from stop_without_state [OF n, of 5] show ?thesis
    by (simp add: emitted_def r t clear_last_command_def)
qed

subsection \<open>Interruptions\<close>

text \<open>
  C8. \<open>handle_interrupt_request\<close> on the registry of interruptions: for an id that is
  not in the registry, INTERRUPT calls the updater's \<open>interrupt\<close> with the labels and
  stores the returned object under the id, and RESUME changes nothing; for an id that is
  in the registry, INTERRUPT changes nothing, and RESUME calls \<open>resume\<close> of the stored
  object with the labels of the request and removes the entry.
\<close>

theorem handle_interrupt_request_protocol:
  "(interruptions h (ir_interrupt_id r) = None \<and> ir_type r = TYPE_INTERRUPT \<longrightarrow>
      handle_interrupt_request r h =
        h\<lparr>trace := trace h @
             [Interrupt (ir_labels r) (ir_interrupt_id r) (next_interruption h)],
          interruptions := (interruptions h)(ir_interrupt_id r \<mapsto> next_interruption h),
          next_interruption := Suc (next_interruption h)\<rparr>)
   \<and> (interruptions h (ir_interrupt_id r) = None \<and> ir_type r = TYPE_RESUME \<longrightarrow>
        handle_interrupt_request r h = h)
   \<and> (interruptions h (ir_interrupt_id r) \<noteq> None \<and> ir_type r = TYPE_INTERRUPT \<longrightarrow>
        handle_interrupt_request r h = h)
   \<and> (interruptions h (ir_interrupt_id r) = Some it \<and> ir_type r = TYPE_RESUME \<longrightarrow>
        handle_interrupt_request r h =
          h\<lparr>trace := trace h @
               [Resume it (ir_labels r),
                Log (Asking_to_resume (ti_robot_name (travel_info h)) (ir_interrupt_id r))],
            interruptions := (interruptions h)(ir_interrupt_id r := None)\<rparr>)"
  by (auto simp: handle_interrupt_request_def emit_def)

lemma ex_handle_interruptions [simp]:
  "interruptions ex_handle = Map.empty" "next_interruption ex_handle = 0"
  "ti_robot_name (travel_info ex_handle) = ''r1''"
  by (simp_all add: ex_handle_def make_handle_def)

text \<open>
  RESUME for an unknown id, then INTERRUPT, a second INTERRUPT and RESUME for the id x.
\<close>

theorem handle_interrupt_request_protocol_witness:
  "handle_interrupt_request (ex_request TYPE_RESUME [''b'']) ex_handle = ex_handle
   \<and> interruptions ex_interrupted ''x'' = Some 0
   \<and> trace ex_interrupted = [Interrupt [''a''] ''x'' 0]
   \<and> handle_interrupt_request (ex_request TYPE_INTERRUPT []) ex_interrupted = ex_interrupted
   \<and> interruptions (handle_interrupt_request (ex_request TYPE_RESUME [''b'']) ex_interrupted) ''x''
       = None
   \<and> trace (handle_interrupt_request (ex_request TYPE_RESUME [''b'']) ex_interrupted)
       = [Interrupt [''a''] ''x'' 0, Resume 0 [''b''], Log (Asking_to_resume ''r1'' ''x'')]"
proof -
  have a: "ex_interrupted =
      ex_handle\<lparr>trace := [Interrupt [''a''] ''x'' 0],
          interruptions := [''x'' \<mapsto> 0], next_interruption := Suc 0\<rparr>"
    using handle_interrupt_request_protocol [of ex_handle "ex_request TYPE_INTERRUPT [''a'']"]
    by (simp add: ex_interrupted_def ex_request_def)
  have b: "handle_interrupt_request (ex_request TYPE_RESUME [''b'']) ex_handle = ex_handle"
    using handle_interrupt_request_protocol [of ex_handle "ex_request TYPE_RESUME [''b'']"]
    by (simp add: ex_request_def)
  have c: "handle_interrupt_request (ex_request TYPE_INTERRUPT []) ex_interrupted = ex_interrupted"
    using handle_interrupt_request_protocol [of ex_interrupted "ex_request TYPE_INTERRUPT []"]
    by (simp add: ex_request_def a)
  have d: "handle_interrupt_request (ex_request TYPE_RESUME [''b'']) ex_interrupted =
      ex_interrupted\<lparr>trace := trace ex_interrupted @
               [Resume 0 [''b''], Log (Asking_to_resume ''r1'' ''x'')],
            interruptions := (interruptions ex_interrupted)(''x'' := None)\<rparr>"
    using handle_interrupt_request_protocol [of ex_interrupted "ex_request TYPE_RESUME [''b'']" 0]
    by (simp add: ex_request_def a)
  show ?thesis
    by (simp add: b c d) (simp add: a)
qed

subsection \<open>Resending a command that is not acknowledged\<close>

lemma emitted_append [simp]: "trace h' = trace h @ xs \<Longrightarrow> emitted h h' = xs"
  by (simp add: emitted_def)

lemma record_state_simps [simp]:
  "trace (record_state st h) = trace h @
     [if 0 \<le> rs_battery_percent st / 100 \<and> rs_battery_percent st / 100 \<le> 1
      then Update_battery_soc (rs_battery_percent st / 100)
      else Log Battery_out_of_range]"
  "ti_next_arrival_estimator (travel_info (record_state st h)) =
     ti_next_arrival_estimator (travel_info h)"
  "current_path_request (record_state st h) = current_path_request h"
  "current_dock_request (record_state st h) = current_dock_request h"
  "path_requested_time (record_state st h) = path_requested_time h"
  "dock_requested_time (record_state st h) = dock_requested_time h"
  "dock_schedule_time (record_state st h) = dock_schedule_time h"
  "interrupted (record_state st h) = interrupted h"
  "last_known_state (record_state st h) = Some st"
  "ti_target_plan_index (travel_info (record_state st h)) = None"
  by (simp_all add: record_state_eq)

lemma update_state_unacked_path:
  assumes "ti_path_finished_callback (travel_info h) \<noteq> None"
    and "dock_finished_callback h = None"
    and "ti_next_arrival_estimator (travel_info h) \<noteq> None"
    and "rs_task_id st \<noteq> pr_task_id (current_path_request h)"
  shows "update_state env now st h =
     Inr (run_estimate_state env (rs_location st)
           (if milliseconds 200 < now - path_requested_time h
            then emit (Publish_path (current_path_request h))
                   ((record_state st h)\<lparr>path_requested_time := now\<rparr>)
            else record_state st h))"
  using assms by (simp add: update_state_unfold update_following_def)

lemma update_state_unacked_dock:
  assumes "ti_path_finished_callback (travel_info h) = None"
    and "dock_finished_callback h = Some cb"
    and "rs_task_id st \<noteq> mr_task_id (current_dock_request h)"
  shows "update_state env now st h =
     Inr (if milliseconds 200 < now - dock_requested_time h
          then emit (Publish_mode (current_dock_request h))
                 ((record_state st h)\<lparr>dock_requested_time := now\<rparr>)
          else record_state st h)"
  using assms by (simp add: update_state_unfold update_docking_def)

text \<open>
  C4, amended. While the state does not echo the task id of the pending path request
  (respectively dock request), \<open>update_state\<close> publishes the pending request again
  exactly when more than 200 ms have passed since the last publication, and then sets
  the publication time to \<open>now\<close>; otherwise it publishes nothing and leaves the time as
  it is.
\<close>

theorem resend_after_200ms:
  "(ti_path_finished_callback (travel_info h) \<noteq> None
      \<and> dock_finished_callback h = None
      \<and> ti_next_arrival_estimator (travel_info h) \<noteq> None
      \<and> rs_task_id st \<noteq> pr_task_id (current_path_request h) \<longrightarrow>
      (\<exists>h'. update_state env now st h = Inr h'
         \<and> filter is_publish (emitted h h') =
             (if milliseconds 200 < now - path_requested_time h
              then [Publish_path (current_path_request h)] else [])
         \<and> path_requested_time h' =
             (if milliseconds 200 < now - path_requested_time h
              then now else path_requested_time h)))
   \<and> (ti_path_finished_callback (travel_info h) = None
      \<and> dock_finished_callback h = Some cb
      \<and> rs_task_id st \<noteq> mr_task_id (current_dock_request h) \<longrightarrow>
      (\<exists>h'. update_state env now st h = Inr h'
         \<and> filter is_publish (emitted h h') =
             (if milliseconds 200 < now - dock_requested_time h
              then [Publish_mode (current_dock_request h)] else [])
         \<and> dock_requested_time h' =
             (if milliseconds 200 < now - dock_requested_time h
              then now else dock_requested_time h)))"
proof (intro conjI impI)
  assume a: "ti_path_finished_callback (travel_info h) \<noteq> None
      \<and> dock_finished_callback h = None
      \<and> ti_next_arrival_estimator (travel_info h) \<noteq> None
      \<and> rs_task_id st \<noteq> pr_task_id (current_path_request h)"
  then have "update_state env now st h =
     Inr (run_estimate_state env (rs_location st)
           (if milliseconds 200 < now - path_requested_time h
            then emit (Publish_path (current_path_request h))
                   ((record_state st h)\<lparr>path_requested_time := now\<rparr>)
            else record_state st h))"
    by (intro update_state_unacked_path) simp_all
  then show "\<exists>h'. update_state env now st h = Inr h'
         \<and> filter is_publish (emitted h h') =
             (if milliseconds 200 < now - path_requested_time h
              then [Publish_path (current_path_request h)] else [])
         \<and> path_requested_time h' =
             (if milliseconds 200 < now - path_requested_time h
              then now else path_requested_time h)"
    by (simp add: run_estimate_state_def emit_def emitted_def)
next
  assume a: "ti_path_finished_callback (travel_info h) = None
      \<and> dock_finished_callback h = Some cb
      \<and> rs_task_id st \<noteq> mr_task_id (current_dock_request h)"
  then have "update_state env now st h =
     Inr (if milliseconds 200 < now - dock_requested_time h
          then emit (Publish_mode (current_dock_request h))
                 ((record_state st h)\<lparr>dock_requested_time := now\<rparr>)
          else record_state st h)"
    by (intro update_state_unacked_dock) simp_all
  then show "\<exists>h'. update_state env now st h = Inr h'
         \<and> filter is_publish (emitted h h') =
             (if milliseconds 200 < now - dock_requested_time h
              then [Publish_mode (current_dock_request h)] else [])
         \<and> dock_requested_time h' =
             (if milliseconds 200 < now - dock_requested_time h
              then now else dock_requested_time h)"
    by (simp add: emit_def emitted_def)
qed

lemma ex_unacked_eq:
  "update_state ex_env 200000000 ex_unacked_state ex_following = Inr ex_unacked"
  by (simp add: ex_unacked_def update_state_unacked_path ex_unacked_state_def ex_state_def)

text \<open>
  C4 as stated fails when exactly 200 ms have passed: the state does not echo the task
  id, \<open>now\<close> minus the publication time is 200 ms, and nothing is published.
\<close>

theorem resend_at_200ms_counterexample:
  "rs_task_id ex_unacked_state \<noteq> pr_task_id (current_path_request ex_following)
   \<and> ti_path_finished_callback (travel_info ex_following) = Some 2
   \<and> 200000000 - path_requested_time ex_following = milliseconds 200
   \<and> update_state ex_env 200000000 ex_unacked_state ex_following = Inr ex_unacked
   \<and> filter is_publish (emitted ex_following ex_unacked) = []
   \<and> path_requested_time ex_unacked = 0"
  by (simp add: ex_unacked_eq)
    (simp add: ex_unacked_def update_state_unacked_path ex_unacked_state_def ex_state_def
      milliseconds_def run_estimate_state_def emitted_def emit_def)

lemma dock_ex: "dock 0 ''d'' (Some 3) ex_handle = Inr ex_docking"
  by (simp add: ex_docking_def dock_def Let_def ex_handle_def make_handle_def
      clear_last_command_def ex_graph_def get_waypoint_def emit_def)

lemma ex_docking_sel [simp]:
  "ti_path_finished_callback (travel_info ex_docking) = None"
  "dock_finished_callback ex_docking = Some 3"
  "dock_requested_time ex_docking = 0"
  "dock_schedule_time ex_docking = 0"
  "mr_task_id (current_dock_request ex_docking) = ''1''"
  "dock_target_wp ex_docking = Some 1"
  by (simp_all add: ex_docking_def dock_def Let_def ex_handle_def make_handle_def
      clear_last_command_def ex_graph_def get_waypoint_def emit_def next_task_id_def
      to_string_1)

text \<open>
  A path request unacknowledged after 250 ms, a dock request unacknowledged after 100 ms.
\<close>

theorem resend_after_200ms_witness:
  "(\<exists>h'. update_state ex_env 250000000 ex_unacked_state ex_following = Inr h'
      \<and> filter is_publish (emitted ex_following h') =
          [Publish_path (current_path_request ex_following)]
      \<and> path_requested_time h' = 250000000)
   \<and> (\<exists>h'. update_state ex_env 100000000 ex_unacked_state ex_docking = Inr h'
      \<and> filter is_publish (emitted ex_docking h') = []
      \<and> dock_requested_time h' = 0)"
  using resend_after_200ms [where h = ex_following and st = ex_unacked_state
      and env = ex_env and now = 250000000]
    resend_after_200ms [where h = ex_docking and st = ex_unacked_state and cb = 3
      and env = ex_env and now = 100000000]
  by (simp add: ex_unacked_state_def ex_state_def milliseconds_def)

subsection \<open>The schedule during docking\<close>

lemma battery_event_kind [simp]:
  "is_participant_set (if c then Update_battery_soc r else Log m) = False"
  "is_publish (if c then Update_battery_soc r else Log m) = False"
  "(if c then Update_battery_soc r else Log m) \<noteq> Replan"
  by simp_all

lemma update_following_dock_schedule:
  "update_following env now st h = Inr h' \<Longrightarrow>
     dock_schedule_time h' = dock_schedule_time h
     \<and> (\<exists>xs. trace h' = trace h @ xs \<and> filter is_participant_set xs = [])"
  by (auto simp: update_following_def run_estimate_state_def run_check_path_finish_def
      run_estimate_path_traveling_def emit_def split: if_splits)

lemma update_docking_dock_schedule:
  "update_docking env now st cb h = Inr h' \<Longrightarrow>
     (\<exists>xs. trace h' = trace h @ xs \<and>
        (if filter is_participant_set xs \<noteq> []
         then rs_path st \<noteq> [] \<and> seconds 1 < now - dock_schedule_time h
              \<and> dock_schedule_time h' = now
         else dock_schedule_time h' = dock_schedule_time h))"
  by (auto simp: update_docking_def run_estimate_waypoint_def emit_def Let_def
      split: if_splits option.splits)

lemma update_state_dock_schedule:
  assumes "update_state env now st h = Inr h'"
  shows "if schedule_pushed h h'
         then rs_path st \<noteq> [] \<and> seconds 1 < now - dock_schedule_time h
              \<and> dock_schedule_time h' = now
         else dock_schedule_time h' = dock_schedule_time h"
proof (cases "ti_path_finished_callback (travel_info h) \<noteq> None")
  case True
  with assms have "update_following env now st (record_state st h) = Inr h'"
    by (simp add: update_state_unfold)
  from update_following_dock_schedule [OF this] show ?thesis
    by (auto simp: schedule_pushed_def emitted_def)
next
  case False
  show ?thesis
  proof (cases "dock_finished_callback h")
    case None
    with False assms
    have "h' = run_estimate_state env (rs_location st) (record_state st h)"
      by (simp add: update_state_unfold)
    then show ?thesis
      by (simp add: schedule_pushed_def emitted_def run_estimate_state_def emit_def)
  next
    case (Some cb)
    with False assms have "update_docking env now st cb (record_state st h) = Inr h'"
      by (simp add: update_state_unfold)
    from update_docking_dock_schedule [OF this] show ?thesis
      by (auto simp: schedule_pushed_def emitted_def split: if_splits)
  qed
qed

lemma push_times_spaced: "spaced (dock_schedule_time h) (push_times env tel h)"
proof (induction tel arbitrary: h)
  case Nil
  show ?case by simp
next
  case (Cons a tel)
  obtain now st where a: "a = (now, st)" by (cases a)
  show ?case
  proof (cases "update_state env now st h")
    case (Inl e)
    then show ?thesis by (simp add: a)
  next
    case (Inr h')
    from update_state_dock_schedule [OF Inr] Cons.IH [of h'] show ?thesis
      by (auto simp: a Inr split: if_splits)
  qed
qed

lemma update_state_docking_ok:
  assumes "ti_path_finished_callback (travel_info h) = None"
    and "dock_finished_callback h = Some cb"
    and "rs_task_id st = mr_task_id (current_dock_request h)"
    and "rs_mode st = MODE_DOCKING"
  shows "\<exists>h'. update_state env now st h = Inr h'"
  using assms by (simp add: update_state_unfold update_docking_def Let_def)

text \<open>
  C7. While a dock command is acknowledged and the robot reports the mode Docking,
  \<open>update_state\<close> sets an itinerary only if the remaining path of the state is not
  empty and at least one second has passed since \<open>_dock_schedule_time\<close>, and it sets
  \<open>_dock_schedule_time\<close> to \<open>now\<close> when it sets an itinerary and leaves it unchanged
  otherwise. In every run of \<open>update_state\<close> calls, the calls that set an itinerary are
  therefore more than one second apart.
\<close>

theorem dock_schedule_throttle:
  "(ti_path_finished_callback (travel_info h) = None
      \<and> dock_finished_callback h = Some cb
      \<and> rs_task_id st = mr_task_id (current_dock_request h)
      \<and> rs_mode st = MODE_DOCKING \<longrightarrow>
      (\<exists>h'. update_state env now st h = Inr h'
         \<and> (schedule_pushed h h' \<longrightarrow>
              rs_path st \<noteq> [] \<and> seconds 1 \<le> now - dock_schedule_time h)
         \<and> dock_schedule_time h' =
             (if schedule_pushed h h' then now else dock_schedule_time h)))
   \<and> spaced (dock_schedule_time h) (push_times env tel h)"
proof (intro conjI impI)
  assume a: "ti_path_finished_callback (travel_info h) = None
      \<and> dock_finished_callback h = Some cb
      \<and> rs_task_id st = mr_task_id (current_dock_request h)
      \<and> rs_mode st = MODE_DOCKING"
  then obtain h' where ok: "update_state env now st h = Inr h'"
    using update_state_docking_ok [of h cb st env now] by blast
  from update_state_dock_schedule [OF ok] ok
  show "\<exists>h'. update_state env now st h = Inr h'
         \<and> (schedule_pushed h h' \<longrightarrow>
              rs_path st \<noteq> [] \<and> seconds 1 \<le> now - dock_schedule_time h)
         \<and> dock_schedule_time h' =
             (if schedule_pushed h h' then now else dock_schedule_time h)"
    by (auto split: if_splits)
next
  show "spaced (dock_schedule_time h) (push_times env tel h)"
    by (rule push_times_spaced)
qed

lemma ex_docking_pushes:
  "push_times ex_env ex_docking_run ex_docking = [2000000000, 3500000000]"
  by (simp add: ex_docking_run_def update_state_unfold update_docking_def Let_def
      ex_docking_state_def ex_state_def ex_env_def seconds_def schedule_pushed_def
      emit_def emitted_def location_position_def)

text \<open>
  A docking robot that reports after 2 s, 2.5 s and 3.5 s: the itinerary is set at the
  first and the third report.
\<close>

theorem dock_schedule_throttle_witness:
  "(ti_path_finished_callback (travel_info ex_docking) = None
     \<and> dock_finished_callback ex_docking = Some 3
     \<and> rs_task_id ex_docking_state = mr_task_id (current_dock_request ex_docking)
     \<and> rs_mode ex_docking_state = MODE_DOCKING)
   \<and> (\<exists>h'. update_state ex_env 2000000000 ex_docking_state ex_docking = Inr h'
        \<and> dock_schedule_time h' =
            (if schedule_pushed ex_docking h' then 2000000000
             else dock_schedule_time ex_docking))
   \<and> push_times ex_env ex_docking_run ex_docking = [2000000000, 3500000000]
   \<and> spaced (dock_schedule_time ex_docking) (push_times ex_env ex_docking_run ex_docking)"
proof -
  note inst = dock_schedule_throttle [where h = ex_docking and st = ex_docking_state
      and cb = 3 and env = ex_env and now = 2000000000 and tel = ex_docking_run]
  have hyp: "ti_path_finished_callback (travel_info ex_docking) = None
     \<and> dock_finished_callback ex_docking = Some 3
     \<and> rs_task_id ex_docking_state = mr_task_id (current_dock_request ex_docking)
     \<and> rs_mode ex_docking_state = MODE_DOCKING"
    by (simp add: ex_docking_state_def ex_state_def)
  from inst [THEN conjunct1, THEN mp, OF hyp]
  have step: "\<exists>h'. update_state ex_env 2000000000 ex_docking_state ex_docking = Inr h'
        \<and> dock_schedule_time h' =
            (if schedule_pushed ex_docking h' then 2000000000
             else dock_schedule_time ex_docking)"
    by blast
  from inst [THEN conjunct2]
  have sp: "spaced (dock_schedule_time ex_docking)
      (push_times ex_env ex_docking_run ex_docking)" .
  from hyp step ex_docking_pushes sp show ?thesis by blast
qed

subsection \<open>AdapterError\<close>

lemma update_state_first_error:
  assumes "acknowledged_error h st" and "\<not> interrupted h"
  shows "update_state env now st h =
     Inr (h\<lparr>last_known_state := Some st,
           interrupted := True,
           travel_info :=
             estimate_state env (rs_location st)
               ((travel_info h)\<lparr>ti_target_plan_index := None\<rparr>),
           trace := trace h @
             [if 0 \<le> rs_battery_percent st / 100 \<and> rs_battery_percent st / 100 \<le> 1
              then Update_battery_soc (rs_battery_percent st / 100)
              else Log Battery_out_of_range,
              Log (Need_to_replan (pr_fleet_name (current_path_request h))
                     (pr_robot_name (current_path_request h))),
              Call_estimate_state (rs_location st),
              Replan]\<rparr>)"
  using assms
  by (simp add: acknowledged_error_def update_state_unfold update_following_def
      run_estimate_state_def emit_def record_state_eq)

lemma update_state_later_error:
  assumes "acknowledged_error h st" and "interrupted h"
  shows "update_state env now st h =
     Inr (h\<lparr>last_known_state := Some st,
           travel_info := (travel_info h)\<lparr>ti_target_plan_index := None\<rparr>,
           trace := trace h @
             [if 0 \<le> rs_battery_percent st / 100 \<and> rs_battery_percent st / 100 \<le> 1
              then Update_battery_soc (rs_battery_percent st / 100)
              else Log Battery_out_of_range]\<rparr>)"
  using assms
  by (simp add: acknowledged_error_def update_state_unfold update_following_def
      record_state_eq)

lemma update_following_interrupted:
  "update_following env now st h = Inr h' \<Longrightarrow> interrupted h \<Longrightarrow> interrupted h'"
  by (auto simp: update_following_def run_estimate_state_def run_check_path_finish_def
      run_estimate_path_traveling_def emit_def split: if_splits)

lemma update_docking_interrupted:
  "update_docking env now st cb h = Inr h' \<Longrightarrow> interrupted h \<Longrightarrow> interrupted h'"
  by (auto simp: update_docking_def run_estimate_waypoint_def emit_def Let_def
      split: if_splits option.splits)

lemma update_state_interrupted:
  assumes "update_state env now st h = Inr h'" and "interrupted h"
  shows "interrupted h'"
proof (cases "ti_path_finished_callback (travel_info h) \<noteq> None")
  case True
  with assms have "update_following env now st (record_state st h) = Inr h'"
    by (simp add: update_state_unfold)
  from update_following_interrupted [OF this] assms(2) show ?thesis by simp
next
  case False
  show ?thesis
  proof (cases "dock_finished_callback h")
    case None
    with False assms
    have "h' = run_estimate_state env (rs_location st) (record_state st h)"
      by (simp add: update_state_unfold)
    with assms(2) show ?thesis by (simp add: run_estimate_state_def emit_def)
  next
    case (Some cb)
    with False assms have "update_docking env now st cb (record_state st h) = Inr h'"
      by (simp add: update_state_unfold)
    from update_docking_interrupted [OF this] assms(2) show ?thesis by simp
  qed
qed

lemma follow_new_path_resets:
  "follow_new_path now wps est cb h = Inr h' \<Longrightarrow> \<not> interrupted h'"
  by (auto simp: follow_new_path_def Let_def emit_def split: sum.splits)

lemma interrupted_run:
  "acknowledged_error_run env tel h \<Longrightarrow> interrupted h \<Longrightarrow>
     \<exists>h' xs. update_states env tel h = Inr h' \<and> interrupted h'
        \<and> trace h' = trace h @ xs \<and> count_list xs Replan = 0"
proof (induction tel arbitrary: h)
  case Nil
  then show ?case by simp
next
  case (Cons a tel)
  obtain now st where a: "a = (now, st)" by (cases a)
  from Cons.prems a have ack: "acknowledged_error h st" by simp
  let ?h1 = "h\<lparr>last_known_state := Some st,
           travel_info := (travel_info h)\<lparr>ti_target_plan_index := None\<rparr>,
           trace := trace h @
             [if 0 \<le> rs_battery_percent st / 100 \<and> rs_battery_percent st / 100 \<le> 1
              then Update_battery_soc (rs_battery_percent st / 100)
              else Log Battery_out_of_range]\<rparr>"
  have step: "update_state env now st h = Inr ?h1"
    using ack Cons.prems(2) by (rule update_state_later_error)
  with Cons.prems a have run: "acknowledged_error_run env tel ?h1"
    by simp
  have "interrupted ?h1" using Cons.prems(2) by simp
  from Cons.IH [OF run this] obtain h' xs where
    "update_states env tel ?h1 = Inr h'" "interrupted h'"
    "trace h' = trace ?h1 @ xs" "count_list xs Replan = 0"
    by blast
  then show ?case
    by (simp add: a step)
qed

lemma uninterrupted_run:
  assumes "acknowledged_error_run env tel h" and "tel \<noteq> []" and "\<not> interrupted h"
  shows "\<exists>h'. update_states env tel h = Inr h' \<and> interrupted h'
           \<and> count_list (emitted h h') Replan = 1"
proof -
  from assms(2) obtain now1 st1 rest where tel: "tel = (now1, st1) # rest"
    by (cases tel) auto
  let ?h1 = "h\<lparr>last_known_state := Some st1,
           interrupted := True,
           travel_info :=
             estimate_state env (rs_location st1)
               ((travel_info h)\<lparr>ti_target_plan_index := None\<rparr>),
           trace := trace h @
             [if 0 \<le> rs_battery_percent st1 / 100 \<and> rs_battery_percent st1 / 100 \<le> 1
              then Update_battery_soc (rs_battery_percent st1 / 100)
              else Log Battery_out_of_range,
              Log (Need_to_replan (pr_fleet_name (current_path_request h))
                     (pr_robot_name (current_path_request h))),
              Call_estimate_state (rs_location st1),
              Replan]\<rparr>"
  from assms(1) tel have ack: "acknowledged_error h st1" by simp
  have step: "update_state env now1 st1 h = Inr ?h1"
    using ack assms(3) by (rule update_state_first_error)
  with assms(1) tel have run: "acknowledged_error_run env rest ?h1" by simp
  have int: "interrupted ?h1" by simp
  from interrupted_run [OF run int] obtain h' xs where
    r: "update_states env rest ?h1 = Inr h'" "interrupted h'"
    "trace h' = trace ?h1 @ xs" "count_list xs Replan = 0"
    by blast
  have "count_list (emitted h h') Replan = 1"
    using r(3,4) by (simp add: emitted_def)
  with r show ?thesis by (simp add: tel step)
qed

text \<open>
  C3, amended. With the path command acknowledged and the mode AdapterError: a call that
  finds \<open>_interrupted\<close> unset records the state, forwards or drops the battery value,
  clears the target index, logs, sets the flag, calls \<open>estimate_state\<close> with the
  reported location on the travel information and then calls the updater's \<open>replan\<close>;
  a call that finds the flag set only records the state, forwards or drops the battery
  value and clears the target index. A non-empty run of such calls appends exactly one
  \<open>replan\<close> when it starts with the flag unset and none when it starts with the flag
  set. No \<open>update_state\<close> unsets the flag; \<open>follow_new_path\<close> does.
\<close>

theorem adapter_error_replans_once:
  "(acknowledged_error h st \<and> \<not> interrupted h \<longrightarrow>
      update_state env now st h =
        Inr (h\<lparr>last_known_state := Some st,
              interrupted := True,
              travel_info :=
                estimate_state env (rs_location st)
                  ((travel_info h)\<lparr>ti_target_plan_index := None\<rparr>),
              trace := trace h @
                [if 0 \<le> rs_battery_percent st / 100 \<and> rs_battery_percent st / 100 \<le> 1
                 then Update_battery_soc (rs_battery_percent st / 100)
                 else Log Battery_out_of_range,
                 Log (Need_to_replan (pr_fleet_name (current_path_request h))
                        (pr_robot_name (current_path_request h))),
                 Call_estimate_state (rs_location st),
                 Replan]\<rparr>))
   \<and> (acknowledged_error h st \<and> interrupted h \<longrightarrow>
        update_state env now st h =
          Inr (h\<lparr>last_known_state := Some st,
                travel_info := (travel_info h)\<lparr>ti_target_plan_index := None\<rparr>,
                trace := trace h @
                  [if 0 \<le> rs_battery_percent st / 100 \<and> rs_battery_percent st / 100 \<le> 1
                   then Update_battery_soc (rs_battery_percent st / 100)
                   else Log Battery_out_of_range]\<rparr>))
   \<and> (acknowledged_error_run env tel h \<and> tel \<noteq> [] \<longrightarrow>
        (\<exists>h'. update_states env tel h = Inr h' \<and> interrupted h'
           \<and> count_list (emitted h h') Replan = (if interrupted h then 0 else 1)))
   \<and> (update_state env now st h = Inr h1 \<and> interrupted h \<longrightarrow> interrupted h1)
   \<and> (follow_new_path now wps est cb h = Inr h2 \<longrightarrow> \<not> interrupted h2)"
proof (intro conjI impI)
  assume "acknowledged_error h st \<and> \<not> interrupted h"
  then show "update_state env now st h =
        Inr (h\<lparr>last_known_state := Some st,
              interrupted := True,
              travel_info :=
                estimate_state env (rs_location st)
                  ((travel_info h)\<lparr>ti_target_plan_index := None\<rparr>),
              trace := trace h @
                [if 0 \<le> rs_battery_percent st / 100 \<and> rs_battery_percent st / 100 \<le> 1
                 then Update_battery_soc (rs_battery_percent st / 100)
                 else Log Battery_out_of_range,
                 Log (Need_to_replan (pr_fleet_name (current_path_request h))
                        (pr_robot_name (current_path_request h))),
                 Call_estimate_state (rs_location st),
                 Replan]\<rparr>)"
    by (intro update_state_first_error) simp_all
next
  assume "acknowledged_error h st \<and> interrupted h"
  then show "update_state env now st h =
          Inr (h\<lparr>last_known_state := Some st,
                travel_info := (travel_info h)\<lparr>ti_target_plan_index := None\<rparr>,
                trace := trace h @
                  [if 0 \<le> rs_battery_percent st / 100 \<and> rs_battery_percent st / 100 \<le> 1
                   then Update_battery_soc (rs_battery_percent st / 100)
                   else Log Battery_out_of_range]\<rparr>)"
    by (intro update_state_later_error) simp_all
next
  assume a: "acknowledged_error_run env tel h \<and> tel \<noteq> []"
  show "\<exists>h'. update_states env tel h = Inr h' \<and> interrupted h'
           \<and> count_list (emitted h h') Replan = (if interrupted h then 0 else 1)"
  proof (cases "interrupted h")
    case True
    from a have "acknowledged_error_run env tel h" by simp
    from interrupted_run [OF this True] obtain h' xs where
      "update_states env tel h = Inr h'" "interrupted h'"
      "trace h' = trace h @ xs" "count_list xs Replan = 0" by blast
    with True show ?thesis by (auto simp: emitted_def)
  next
    case False
    with a uninterrupted_run [of env tel h] show ?thesis by simp
  qed
next
  assume "update_state env now st h = Inr h1 \<and> interrupted h"
  then show "interrupted h1" using update_state_interrupted by blast
next
  assume "follow_new_path now wps est cb h = Inr h2"
  then show "\<not> interrupted h2" by (rule follow_new_path_resets)
qed

lemma ex_resumed_eq:
  "update_states ex_env [(5, ex_error_state), (6, ex_traveling_state (1 / 2))] ex_following
     = Inr ex_resumed"
  by (simp add: ex_resumed_def update_state_unfold update_following_def ex_error_state_def
      ex_traveling_state_def ex_state_def run_estimate_state_def emit_def ex_env_def)

lemma ex_resumed_sel [simp]:
  "interrupted ex_resumed"
  "acknowledged_error ex_resumed ex_error_state"
  "ti_target_plan_index (travel_info ex_resumed) = Some 1"
  by (simp_all add: ex_resumed_def update_state_unfold update_following_def
      ex_error_state_def ex_traveling_state_def ex_state_def run_estimate_state_def
      run_estimate_path_traveling_def ex_env_def emit_def acknowledged_error_def
      record_state_eq ex_plan_def)

lemma ex_error_state_battery [simp]: "rs_battery_percent ex_error_state = 50"
  by (simp add: ex_error_state_def ex_state_def)

lemma later_error_keeps_acknowledged:
  "acknowledged_error h st' \<Longrightarrow>
     acknowledged_error
       (h\<lparr>last_known_state := Some st,
          travel_info := (travel_info h)\<lparr>ti_target_plan_index := None\<rparr>,
          trace := tr\<rparr>) st'"
  by (simp add: acknowledged_error_def)

lemma ex_resumed_run: "acknowledged_error_run ex_env ex_error_run ex_resumed"
  by (simp add: ex_error_run_def update_state_later_error later_error_keeps_acknowledged)

lemma ex_resumed_after_eq:
  "update_states ex_env ex_error_run ex_resumed = Inr ex_resumed_after"
  by (simp add: ex_resumed_after_def ex_error_run_def update_state_later_error
      later_error_keeps_acknowledged)

lemma ex_resumed_after_trace:
  "emitted ex_resumed ex_resumed_after =
     [Update_battery_soc (1 / 2), Update_battery_soc (1 / 2), Update_battery_soc (1 / 2)]"
  by (simp add: ex_resumed_after_def ex_error_run_def update_state_later_error
      later_error_keeps_acknowledged emitted_def)

text \<open>
  C3 as stated fails for a run that is not the first one under its command: after an
  AdapterError state and a Moving state for the path with task id 1, a run of three
  AdapterError states, with no \<open>follow_new_path\<close> in between, appends no \<open>replan\<close>.
  Its calls are not without effect either: each forwards the battery value, and the
  first clears the target index.
\<close>

theorem adapter_error_later_episode_counterexample:
  "update_states ex_env [(5, ex_error_state), (6, ex_traveling_state (1 / 2))] ex_following
     = Inr ex_resumed
   \<and> acknowledged_error_run ex_env ex_error_run ex_resumed
   \<and> ex_error_run \<noteq> []
   \<and> update_states ex_env ex_error_run ex_resumed = Inr ex_resumed_after
   \<and> emitted ex_resumed ex_resumed_after =
       [Update_battery_soc (1 / 2), Update_battery_soc (1 / 2), Update_battery_soc (1 / 2)]
   \<and> count_list (emitted ex_resumed ex_resumed_after) Replan = 0
   \<and> ti_target_plan_index (travel_info ex_resumed) = Some 1
   \<and> ti_target_plan_index (travel_info ex_resumed_after) = None"
proof -
  have t: "ti_target_plan_index (travel_info ex_resumed_after) = None"
    by (simp add: ex_resumed_after_def ex_error_run_def update_state_later_error
      later_error_keeps_acknowledged)
  have ne: "ex_error_run \<noteq> []" by (simp add: ex_error_run_def)
  have c: "count_list (emitted ex_resumed ex_resumed_after) Replan = 0"
    by (simp add: ex_resumed_after_trace)
  have s: "ti_target_plan_index (travel_info ex_resumed) = Some 1" by simp
  from ex_resumed_eq ex_resumed_run ne ex_resumed_after_eq ex_resumed_after_trace c s t
  show ?thesis by (intro conjI)
qed

lemma ex_error_run_ok: "acknowledged_error_run ex_env ex_error_run ex_following"
  by (simp add: ex_error_run_def acknowledged_error_def update_state_unfold
      update_following_def ex_error_state_def ex_state_def run_estimate_state_def
      ex_env_def emit_def)

text \<open>
  Three AdapterError states in a row for the path with task id 1: first on the handle
  that has just been given the path, then on the handle that has seen an earlier
  AdapterError state.
\<close>

theorem adapter_error_replans_once_witness:
  "(acknowledged_error_run ex_env ex_error_run ex_following
     \<and> ex_error_run \<noteq> [] \<and> \<not> interrupted ex_following)
   \<and> (\<exists>h'. update_states ex_env ex_error_run ex_following = Inr h' \<and> interrupted h'
         \<and> count_list (emitted ex_following h') Replan = 1)
   \<and> (acknowledged_error_run ex_env ex_error_run ex_resumed \<and> interrupted ex_resumed)
   \<and> (\<exists>h'. update_states ex_env ex_error_run ex_resumed = Inr h' \<and> interrupted h'
         \<and> count_list (emitted ex_resumed h') Replan = 0)"
proof -
  have ne: "ex_error_run \<noteq> []" by (simp add: ex_error_run_def)
  have hyp1: "acknowledged_error_run ex_env ex_error_run ex_following \<and> ex_error_run \<noteq> []"
    using ne by (simp add: ex_error_run_ok)
  have hyp2: "acknowledged_error_run ex_env ex_error_run ex_resumed \<and> ex_error_run \<noteq> []"
    using ne by (simp add: ex_resumed_run)
  from adapter_error_replans_once [where h = ex_following and env = ex_env
      and tel = ex_error_run, THEN conjunct2, THEN conjunct2, THEN conjunct1, THEN mp, OF hyp1]
  have a: "\<exists>h'. update_states ex_env ex_error_run ex_following = Inr h' \<and> interrupted h'
         \<and> count_list (emitted ex_following h') Replan = 1"
    by simp
  from adapter_error_replans_once [where h = ex_resumed and env = ex_env
      and tel = ex_error_run, THEN conjunct2, THEN conjunct2, THEN conjunct1, THEN mp, OF hyp2]
  have b: "\<exists>h'. update_states ex_env ex_error_run ex_resumed = Inr h' \<and> interrupted h'
         \<and> count_list (emitted ex_resumed h') Replan = 0"
    by simp
  from hyp1 hyp2 a b show ?thesis by simp
qed

subsection \<open>Lane closures and the rest of the plan\<close>

lemma any_lane_closed_iff:
  "any_lane_closed cls ls \<longleftrightarrow> (\<exists>l\<in>set ls. l \<in> cls)"
  by (induction ls) auto

lemma remaining_plan_closed_iff:
  "remaining_plan_closed cls wps \<longleftrightarrow>
     (\<exists>w\<in>set wps. \<exists>l\<in>set (pw_approach_lanes w). l \<in> cls)"
  by (induction wps) (auto simp: any_lane_closed_iff)

lemma in_set_drop_iff:
  "x \<in> set (drop i xs) \<longleftrightarrow> (\<exists>j\<ge>i. j < length xs \<and> x = xs ! j)"
proof
  assume "x \<in> set (drop i xs)"
  then obtain k where "k < length xs - i" "x = drop i xs ! k"
    by (auto simp: in_set_conv_nth)
  then have "i + k < length xs \<and> x = xs ! (i + k)" by simp
  then show "\<exists>j\<ge>i. j < length xs \<and> x = xs ! j"
    by (intro exI [of _ "i + k"]) simp
next
  assume "\<exists>j\<ge>i. j < length xs \<and> x = xs ! j"
  then obtain j where j: "i \<le> j" "j < length xs" "x = xs ! j" by blast
  then have "j - i < length (drop i xs)" "drop i xs ! (j - i) = x" by simp_all
  then show "x \<in> set (drop i xs)" by (metis nth_mem)
qed

lemma remaining_plan_closed_drop:
  "remaining_plan_closed cls (drop i wps) \<longleftrightarrow>
     (\<exists>j\<ge>i. j < length wps \<and> (\<exists>l\<in>set (pw_approach_lanes (wps ! j)). l \<in> cls))"
proof
  assume "remaining_plan_closed cls (drop i wps)"
  then obtain w l where "w \<in> set (drop i wps)" "l \<in> set (pw_approach_lanes w)" "l \<in> cls"
    by (auto simp: remaining_plan_closed_iff)
  moreover then obtain j where "i \<le> j" "j < length wps" "w = wps ! j"
    by (auto simp: in_set_drop_iff)
  ultimately show "\<exists>j\<ge>i. j < length wps \<and> (\<exists>l\<in>set (pw_approach_lanes (wps ! j)). l \<in> cls)"
    by blast
next
  assume "\<exists>j\<ge>i. j < length wps \<and> (\<exists>l\<in>set (pw_approach_lanes (wps ! j)). l \<in> cls)"
  then obtain j l where "i \<le> j" "j < length wps" "l \<in> set (pw_approach_lanes (wps ! j))"
    "l \<in> cls" by blast
  moreover then have "wps ! j \<in> set (drop i wps)"
    by (auto simp: in_set_drop_iff)
  ultimately show "remaining_plan_closed cls (drop i wps)"
    by (auto simp: remaining_plan_closed_iff)
qed

lemma closed_lane_events_kind:
  "closed_lane_events g lks l = Inr es \<Longrightarrow> list_all is_update_position es"
  by (auto simp: closed_lane_events_def Let_def split: sum.splits option.splits if_splits)

lemma closed_lane_events_defined:
  "valid_lane g l \<Longrightarrow> \<exists>es. closed_lane_events g (Some st) l = Inr es"
  by (auto simp: closed_lane_events_def valid_lane_def get_lane_def get_waypoint_def Let_def
      split: option.splits)

lemma closed_lane_events_no_null:
  "closed_lane_events g (Some st) l \<noteq> Inl Null_dereference"
  by (auto simp: closed_lane_events_def get_lane_def get_waypoint_def Let_def
      split: option.splits)

lemma current_lanes_loop_result:
  "current_lanes_loop g cls lks ls (need, evs) = Inr (need', evs') \<Longrightarrow>
     need' = (need \<or> (\<exists>l\<in>set ls. l \<in> cls))
     \<and> (\<exists>xs. evs' = evs @ xs \<and> list_all is_update_position xs)"
proof (induction ls arbitrary: need evs)
  case Nil
  then show ?case by simp
next
  case (Cons l ls)
  show ?case
  proof (cases "l \<in> cls")
    case False
    with Cons.prems have "current_lanes_loop g cls lks ls (need, evs) = Inr (need', evs')"
      by simp
    from Cons.IH [OF this] False show ?thesis by auto
  next
    case True
    with Cons.prems obtain es where es: "closed_lane_events g lks l = Inr es"
      and rest: "current_lanes_loop g cls lks ls (True, evs @ es) = Inr (need', evs')"
      by (auto split: sum.splits)
    from Cons.IH [OF rest] closed_lane_events_kind [OF es] True show ?thesis by auto
  qed
qed

lemma current_lanes_loop_defined:
  "\<forall>l\<in>set ls. valid_lane g l \<Longrightarrow>
     \<exists>r. current_lanes_loop g cls (Some st) ls (need, evs) = Inr r"
proof (induction ls arbitrary: need evs)
  case Nil
  then show ?case by simp
next
  case (Cons l ls)
  then have "valid_lane g l" by simp
  from closed_lane_events_defined [OF this] obtain es
    where "closed_lane_events g (Some st) l = Inr es" by blast
  with Cons show ?case by simp
qed

lemma count_list_update_position:
  "list_all is_update_position xs \<Longrightarrow> count_list xs Replan = 0"
  by (induction xs) auto

text \<open>
  C1. Without a target index \<open>newly_closed_lanes\<close> does nothing. With a target index
  \<open>i\<close> inside the plan, a last known state, and approach lanes of the target waypoint
  that are lanes of the graph, \<open>newly_closed_lanes\<close> returns, and it calls the
  updater's \<open>replan\<close> once if some approach lane of some plan waypoint at an index
  \<open>j \<ge> i\<close> is in the closed set, and not at all otherwise.
\<close>

theorem newly_closed_lanes_replan:
  "(ti_target_plan_index (travel_info h) = None \<longrightarrow> newly_closed_lanes cls h = Inr h)
   \<and> (ti_target_plan_index (travel_info h) = Some i
       \<and> i < length (ti_waypoints (travel_info h))
       \<and> last_known_state h = Some st
       \<and> (\<forall>l\<in>set (pw_approach_lanes (ti_waypoints (travel_info h) ! i)).
             valid_lane (ti_graph (travel_info h)) l) \<longrightarrow>
       (\<exists>h'. newly_closed_lanes cls h = Inr h'
          \<and> count_list (emitted h h') Replan =
              (if \<exists>j\<ge>i. j < length (ti_waypoints (travel_info h))
                    \<and> (\<exists>l\<in>set (pw_approach_lanes (ti_waypoints (travel_info h) ! j)).
                          l \<in> cls)
               then 1 else 0)))"
proof (intro conjI impI)
  assume "ti_target_plan_index (travel_info h) = None"
  then show "newly_closed_lanes cls h = Inr h"
    by (simp add: newly_closed_lanes_def)
next
  let ?wps = "ti_waypoints (travel_info h)"
  let ?g = "ti_graph (travel_info h)"
  assume a: "ti_target_plan_index (travel_info h) = Some i
       \<and> i < length ?wps
       \<and> last_known_state h = Some st
       \<and> (\<forall>l\<in>set (pw_approach_lanes (?wps ! i)). valid_lane ?g l)"
  then obtain need1 evs where loop:
    "current_lanes_loop ?g cls (Some st) (pw_approach_lanes (?wps ! i)) (False, [])
       = Inr (need1, evs)"
    using current_lanes_loop_defined [of "pw_approach_lanes (?wps ! i)" ?g cls st False "[]"]
    by auto
  from current_lanes_loop_result [OF loop]
  have need1: "need1 = (\<exists>l\<in>set (pw_approach_lanes (?wps ! i)). l \<in> cls)"
    and evs: "list_all is_update_position evs" by auto
  let ?need = "if \<not> need1 then remaining_plan_closed cls (drop i ?wps) else need1"
  have res: "newly_closed_lanes cls h =
      Inr (h\<lparr>trace := trace h @ evs @ (if ?need then [Replan] else [])\<rparr>)"
    using a loop by (simp add: newly_closed_lanes_def Let_def)
  have "?need \<longleftrightarrow> (\<exists>j\<ge>i. j < length ?wps
           \<and> (\<exists>l\<in>set (pw_approach_lanes (?wps ! j)). l \<in> cls))"
    using a need1 by (auto simp: remaining_plan_closed_drop)
  moreover have "count_list evs Replan = 0"
    using evs by (rule count_list_update_position)
  ultimately show "\<exists>h'. newly_closed_lanes cls h = Inr h'
          \<and> count_list (emitted h h') Replan =
              (if \<exists>j\<ge>i. j < length ?wps
                    \<and> (\<exists>l\<in>set (pw_approach_lanes (?wps ! j)). l \<in> cls)
               then 1 else 0)"
    by (simp add: res emitted_def)
qed

lemma ex_traveling_eq:
  "update_state ex_env 1 (ex_traveling_state x) ex_following = Inr (ex_traveling x)"
  by (simp add: ex_traveling_def ex_traveling_state_def update_state_unfold
      update_following_def ex_state_def)

lemma ex_traveling_sel [simp]:
  "ti_target_plan_index (travel_info (ex_traveling x)) = Some 1"
  "ti_waypoints (travel_info (ex_traveling x)) = ex_plan"
  "ti_graph (travel_info (ex_traveling x)) = ex_graph"
  "last_known_state (ex_traveling x) = Some (ex_traveling_state x)"
  by (simp_all add: ex_traveling_def ex_traveling_state_def update_state_unfold
      update_following_def ex_state_def run_estimate_path_traveling_def ex_env_def
      emit_def ex_plan_def record_state_eq)

lemma ex_graph_valid [simp]: "valid_lane ex_graph 0" "valid_lane ex_graph (Suc 0)"
  by (simp_all add: valid_lane_def ex_graph_def)

lemma ex_plan_lanes [simp]:
  "length ex_plan = 2" "pw_approach_lanes (ex_plan ! Suc 0) = [0]"
  "pw_approach_lanes (ex_plan ! 0) = []"
  by (simp_all add: ex_plan_def)

text \<open>
  The robot halfway along lane 0 towards the second plan waypoint: closing lane 0
  replans, closing lane 1 does not; and a handle without a target index.
\<close>

theorem newly_closed_lanes_replan_witness:
  "(ti_target_plan_index (travel_info (ex_traveling (1 / 2))) = Some 1
     \<and> 1 < length (ti_waypoints (travel_info (ex_traveling (1 / 2))))
     \<and> last_known_state (ex_traveling (1 / 2)) = Some (ex_traveling_state (1 / 2))
     \<and> pw_approach_lanes (ti_waypoints (travel_info (ex_traveling (1 / 2))) ! 1) = [0]
     \<and> valid_lane ex_graph 0)
   \<and> (\<exists>h'. newly_closed_lanes {0} (ex_traveling (1 / 2)) = Inr h'
         \<and> count_list (emitted (ex_traveling (1 / 2)) h') Replan = 1)
   \<and> (\<exists>h'. newly_closed_lanes {1} (ex_traveling (1 / 2)) = Inr h'
         \<and> count_list (emitted (ex_traveling (1 / 2)) h') Replan = 0)
   \<and> newly_closed_lanes {0} ex_following = Inr ex_following"
proof -
  let ?h = "ex_traveling (1 / 2)"
  have hyp: "ti_target_plan_index (travel_info ?h) = Some 1
       \<and> 1 < length (ti_waypoints (travel_info ?h))
       \<and> last_known_state ?h = Some (ex_traveling_state (1 / 2))
       \<and> (\<forall>l\<in>set (pw_approach_lanes (ti_waypoints (travel_info ?h) ! 1)).
             valid_lane (ti_graph (travel_info ?h)) l)"
    by simp
  have yes: "\<exists>j\<ge>1. j < length (ti_waypoints (travel_info ?h))
        \<and> (\<exists>l\<in>set (pw_approach_lanes (ti_waypoints (travel_info ?h) ! j)). l \<in> {0::nat})"
    by (intro exI [of _ 1]) simp
  have no: "\<not> (\<exists>j\<ge>1. j < length (ti_waypoints (travel_info ?h))
        \<and> (\<exists>l\<in>set (pw_approach_lanes (ti_waypoints (travel_info ?h) ! j)). l \<in> {1::nat}))"
  proof
    assume "\<exists>j\<ge>1. j < length (ti_waypoints (travel_info ?h))
        \<and> (\<exists>l\<in>set (pw_approach_lanes (ti_waypoints (travel_info ?h) ! j)). l \<in> {1::nat})"
    then obtain j where "1 \<le> j" "j < 2"
      "\<exists>l\<in>set (pw_approach_lanes (ex_plan ! j)). l \<in> {1::nat}" by auto
    moreover then have "j = 1" by simp
    ultimately show False by simp
  qed
  from newly_closed_lanes_replan [where h = ?h and cls = "{0}" and i = 1
      and st = "ex_traveling_state (1 / 2)", THEN conjunct2, THEN mp, OF hyp]
  have a: "\<exists>h'. newly_closed_lanes {0} ?h = Inr h'
         \<and> count_list (emitted ?h h') Replan = 1"
    unfolding if_P [OF yes] .
  from newly_closed_lanes_replan [where h = ?h and cls = "{1}" and i = 1
      and st = "ex_traveling_state (1 / 2)", THEN conjunct2, THEN mp, OF hyp]
  have b: "\<exists>h'. newly_closed_lanes {1} ?h = Inr h'
         \<and> count_list (emitted ?h h') Replan = 0"
    unfolding if_not_P [OF no] .
  have "ti_target_plan_index (travel_info ex_following) = None"
    by (simp add: ex_following_def follow_new_path_def Let_def path_locations_ex
      ex_handle_def make_handle_def clear_last_command_def emit_def)
  with newly_closed_lanes_replan [where h = ex_following and cls = "{0}", THEN conjunct1]
  have c: "newly_closed_lanes {0} ex_following = Inr ex_following" by simp
  from a b c show ?thesis by simp
qed

subsection \<open>A robot on a closed lane\<close>

lemma dot_self_nonneg: "0 \<le> dot a a"
  by (simp add: dot_def)

lemma vnorm_square: "vnorm a * vnorm a = dot a a"
  by (simp add: vnorm_def dot_self_nonneg)

lemma dot_shift:
  "dot (vsub p p1) (vsub p1 p0) = dot (vsub p p0) (vsub p1 p0) - dot (vsub p1 p0) (vsub p1 p0)"
  by (simp add: dot_def vsub_def algebra_simps)

lemma on_lane:
  assumes "0 \<le> lane_param p p0 p1" and "lane_param p p0 p1 < lane_length p0 p1"
  shows "\<not> dot (vsub p p0) (vsub p1 p0) < 0 \<and> \<not> 0 \<le> dot (vsub p p1) (vsub p1 p0)"
proof -
  let ?L = "lane_length p0 p1"
  let ?u = "lane_param p p0 p1"
  from assms have L: "0 < ?L" by simp
  have d: "dot (vsub p p0) (vsub p1 p0) = ?u * ?L"
    using L by (simp add: lane_param_def)
  have LL: "dot (vsub p1 p0) (vsub p1 p0) = ?L * ?L"
    by (simp add: lane_length_def vnorm_square)
  have "0 \<le> ?u * ?L" using assms(1) L by simp
  moreover have "?u * ?L - ?L * ?L < 0"
  proof -
    have "?u * ?L - ?L * ?L = (?u - ?L) * ?L" by (simp add: algebra_simps)
    moreover have "(?u - ?L) * ?L < 0"
      using assms(2) L by (simp add: mult_neg_pos)
    ultimately show ?thesis by simp
  qed
  ultimately show ?thesis
    by (simp add: d dot_shift LL)
qed

lemma closed_lane_events_stranded:
  assumes "valid_lane g l"
    and "0 \<le> lane_param (robot_xy st) (lane_p0 g l) (lane_p1 g l)"
    and "lane_param (robot_xy st) (lane_p0 g l) (lane_p1 g l)
           < lane_length (lane_p0 g l) (lane_p1 g l)"
  shows "closed_lane_events g (Some st) l = Inr [stranded_update g st l]"
  using assms(1) on_lane [OF assms(2,3)]
  by (simp add: closed_lane_events_def valid_lane_def get_lane_def get_waypoint_def Let_def
      stranded_update_def robot_xy_def lane_p0_def lane_p1_def not_less not_le
      split: option.splits)

lemma current_lanes_loop_contains:
  "current_lanes_loop g cls lks ls (need, evs) = Inr (need', evs') \<Longrightarrow>
   l \<in> set ls \<Longrightarrow> l \<in> cls \<Longrightarrow> closed_lane_events g lks l = Inr es \<Longrightarrow>
     \<exists>pre post. evs' = evs @ pre @ es @ post"
proof (induction ls arbitrary: need evs)
  case Nil
  then show ?case by simp
next
  case (Cons a ls)
  show ?case
  proof (cases "a = l")
    case True
    with Cons.prems have "current_lanes_loop g cls lks ls (True, evs @ es) = Inr (need', evs')"
      by simp
    from current_lanes_loop_result [OF this] obtain xs where "evs' = (evs @ es) @ xs"
      by blast
    then have "evs' = evs @ [] @ es @ xs" by simp
    then show ?thesis by blast
  next
    case False
    with Cons.prems have l: "l \<in> set ls" by simp
    show ?thesis
    proof (cases "a \<in> cls")
      case True
      with Cons.prems obtain es' where es': "closed_lane_events g lks a = Inr es'"
        and rest: "current_lanes_loop g cls lks ls (True, evs @ es') = Inr (need', evs')"
        by (auto split: sum.splits)
      from Cons.IH [OF rest l Cons.prems(3,4)] obtain pre post
        where "evs' = (evs @ es') @ pre @ es @ post" by blast
      then have "evs' = evs @ (es' @ pre) @ es @ post" by simp
      then show ?thesis by blast
    next
      case False
      with Cons.prems
      have rest: "current_lanes_loop g cls lks ls (need, evs) = Inr (need', evs')"
        by simp
      from Cons.IH [OF rest l Cons.prems(3,4)] show ?thesis .
    qed
  qed
qed

text \<open>
  C2, amended. For a closed approach lane \<open>l\<close> of the target waypoint and a robot whose
  position has \<open>0 \<le> u < \<parallel>lane\<parallel>\<close> along it, the loop body for \<open>l\<close> makes exactly one
  call of \<open>update_position\<close>: with the reverse lane when there is one, else with the
  entry waypoint of \<open>l\<close>. \<open>newly_closed_lanes\<close> returns, that call is among the
  calls it appended, all others are calls of \<open>update_position\<close> for the other closed
  approach lanes, and the last call is \<open>replan\<close>.
\<close>

theorem stranded_on_closed_lane:
  "ti_target_plan_index (travel_info h) = Some i
   \<and> i < length (ti_waypoints (travel_info h))
   \<and> last_known_state h = Some st
   \<and> (\<forall>k\<in>set (pw_approach_lanes (ti_waypoints (travel_info h) ! i)).
         valid_lane (ti_graph (travel_info h)) k)
   \<and> l \<in> set (pw_approach_lanes (ti_waypoints (travel_info h) ! i))
   \<and> l \<in> cls
   \<and> 0 \<le> lane_param (robot_xy st) (lane_p0 (ti_graph (travel_info h)) l)
            (lane_p1 (ti_graph (travel_info h)) l)
   \<and> lane_param (robot_xy st) (lane_p0 (ti_graph (travel_info h)) l)
            (lane_p1 (ti_graph (travel_info h)) l)
       < lane_length (lane_p0 (ti_graph (travel_info h)) l)
            (lane_p1 (ti_graph (travel_info h)) l)
   \<longrightarrow>
     closed_lane_events (ti_graph (travel_info h)) (Some st) l =
       Inr [stranded_update (ti_graph (travel_info h)) st l]
     \<and> (\<exists>h' pre post.
          newly_closed_lanes cls h = Inr h'
          \<and> emitted h h' =
              pre @ [stranded_update (ti_graph (travel_info h)) st l] @ post @ [Replan]
          \<and> list_all is_update_position (pre @ post))"
proof (intro impI)
  let ?wps = "ti_waypoints (travel_info h)"
  let ?g = "ti_graph (travel_info h)"
  let ?ls = "pw_approach_lanes (?wps ! i)"
  assume a: "ti_target_plan_index (travel_info h) = Some i
   \<and> i < length ?wps
   \<and> last_known_state h = Some st
   \<and> (\<forall>k\<in>set ?ls. valid_lane ?g k)
   \<and> l \<in> set ?ls
   \<and> l \<in> cls
   \<and> 0 \<le> lane_param (robot_xy st) (lane_p0 ?g l) (lane_p1 ?g l)
   \<and> lane_param (robot_xy st) (lane_p0 ?g l) (lane_p1 ?g l)
       < lane_length (lane_p0 ?g l) (lane_p1 ?g l)"
  then have v: "valid_lane ?g l" by blast
  have es: "closed_lane_events ?g (Some st) l = Inr [stranded_update ?g st l]"
    using v a by (intro closed_lane_events_stranded) simp_all
  from a obtain need1 evs where loop:
    "current_lanes_loop ?g cls (Some st) ?ls (False, []) = Inr (need1, evs)"
    using current_lanes_loop_defined [of ?ls ?g cls st False "[]"] by auto
  from current_lanes_loop_result [OF loop] a
  have need1: "need1" and kinds: "list_all is_update_position evs" by auto
  from current_lanes_loop_contains [OF loop _ _ es] a
  obtain pre post where evs: "evs = pre @ [stranded_update ?g st l] @ post" by auto
  have res: "newly_closed_lanes cls h = Inr (h\<lparr>trace := trace h @ evs @ [Replan]\<rparr>)"
    using a loop need1 by (simp add: newly_closed_lanes_def Let_def)
  have "emitted h (h\<lparr>trace := trace h @ evs @ [Replan]\<rparr>)
      = pre @ [stranded_update ?g st l] @ post @ [Replan]"
    by (simp add: emitted_def evs)
  moreover have "list_all is_update_position (pre @ post)"
    using kinds evs by simp
  ultimately show "closed_lane_events ?g (Some st) l = Inr [stranded_update ?g st l]
     \<and> (\<exists>h' pre post.
          newly_closed_lanes cls h = Inr h'
          \<and> emitted h h' = pre @ [stranded_update ?g st l] @ post @ [Replan]
          \<and> list_all is_update_position (pre @ post))"
    using es res by blast
qed

lemma ex_lane_geometry [simp]:
  "lane_p0 ex_graph 0 = (0, 0)" "lane_p1 ex_graph 0 = (1, 0)"
  "robot_xy (ex_traveling_state x) = (x, 0)"
  "lane_length (0, 0) (1, 0) = 1"
  "lane_param (x, 0) (0, 0) (1, 0) = x"
  by (simp_all add: lane_p0_def lane_p1_def ex_graph_def robot_xy_def ex_traveling_state_def
      ex_state_def ex_location_def lane_length_def lane_param_def vnorm_def dot_def vsub_def)

lemma ex_stranded_update:
  "stranded_update ex_graph (ex_traveling_state x) 0 = Update_position_lanes (x, 0, 0) [1]"
  by (simp add: stranded_update_def ex_graph_def lane_from_def ex_traveling_state_def
      ex_state_def ex_location_def)

text \<open>
  The robot halfway along the closed lane 0, whose reverse lane is lane 1.
\<close>

theorem stranded_on_closed_lane_witness:
  "(ti_target_plan_index (travel_info (ex_traveling (1 / 2))) = Some 1
     \<and> 1 < length (ti_waypoints (travel_info (ex_traveling (1 / 2))))
     \<and> last_known_state (ex_traveling (1 / 2)) = Some (ex_traveling_state (1 / 2))
     \<and> pw_approach_lanes (ti_waypoints (travel_info (ex_traveling (1 / 2))) ! 1) = [0]
     \<and> valid_lane ex_graph 0
     \<and> lane_param (robot_xy (ex_traveling_state (1 / 2))) (lane_p0 ex_graph 0)
          (lane_p1 ex_graph 0) = 1 / 2
     \<and> lane_length (lane_p0 ex_graph 0) (lane_p1 ex_graph 0) = 1)
   \<and> closed_lane_events ex_graph (Some (ex_traveling_state (1 / 2))) 0 =
       Inr [Update_position_lanes (1 / 2, 0, 0) [1]]
   \<and> (\<exists>h' pre post.
        newly_closed_lanes {0} (ex_traveling (1 / 2)) = Inr h'
        \<and> emitted (ex_traveling (1 / 2)) h' =
            pre @ [Update_position_lanes (1 / 2, 0, 0) [1]] @ post @ [Replan]
        \<and> list_all is_update_position (pre @ post))"
proof -
  let ?h = "ex_traveling (1 / 2)"
  let ?st = "ex_traveling_state (1 / 2)"
  have hyp: "ti_target_plan_index (travel_info ?h) = Some 1
   \<and> 1 < length (ti_waypoints (travel_info ?h))
   \<and> last_known_state ?h = Some ?st
   \<and> (\<forall>k\<in>set (pw_approach_lanes (ti_waypoints (travel_info ?h) ! 1)).
         valid_lane (ti_graph (travel_info ?h)) k)
   \<and> 0 \<in> set (pw_approach_lanes (ti_waypoints (travel_info ?h) ! 1))
   \<and> 0 \<in> {0::nat}
   \<and> 0 \<le> lane_param (robot_xy ?st) (lane_p0 (ti_graph (travel_info ?h)) 0)
            (lane_p1 (ti_graph (travel_info ?h)) 0)
   \<and> lane_param (robot_xy ?st) (lane_p0 (ti_graph (travel_info ?h)) 0)
            (lane_p1 (ti_graph (travel_info ?h)) 0)
       < lane_length (lane_p0 (ti_graph (travel_info ?h)) 0)
            (lane_p1 (ti_graph (travel_info ?h)) 0)"
    by simp
  from stranded_on_closed_lane [where h = ?h and i = 1 and st = ?st and l = 0
      and cls = "{0}", THEN mp, OF hyp]
  show ?thesis by (simp add: ex_stranded_update)
qed

text \<open>
  C2 as stated fails at \<open>u = \<parallel>lane\<parallel>\<close>: with the robot at the exit waypoint of the closed
  approach lane 0, no \<open>update_position\<close> is called, only \<open>replan\<close>.
\<close>

theorem stranded_at_lane_exit_counterexample:
  "ti_target_plan_index (travel_info (ex_traveling 1)) = Some 1
   \<and> pw_approach_lanes (ti_waypoints (travel_info (ex_traveling 1)) ! 1) = [0]
   \<and> last_known_state (ex_traveling 1) = Some (ex_traveling_state 1)
   \<and> 0 \<le> lane_param (robot_xy (ex_traveling_state 1)) (lane_p0 ex_graph 0)
          (lane_p1 ex_graph 0)
   \<and> lane_param (robot_xy (ex_traveling_state 1)) (lane_p0 ex_graph 0) (lane_p1 ex_graph 0)
       \<le> lane_length (lane_p0 ex_graph 0) (lane_p1 ex_graph 0)
   \<and> lane_from ex_graph 1 0 = Some 1
   \<and> closed_lane_events ex_graph (Some (ex_traveling_state 1)) 0 = Inr []
   \<and> newly_closed_lanes {0} (ex_traveling 1) =
       Inr ((ex_traveling 1)\<lparr>trace := trace (ex_traveling 1) @ [Replan]\<rparr>)"
proof -
  have ev: "closed_lane_events ex_graph (Some (ex_traveling_state 1)) 0 = Inr []"
    by (simp add: closed_lane_events_def ex_graph_def get_lane_def get_waypoint_def
        ex_traveling_state_def ex_state_def ex_location_def dot_def vsub_def)
  have "newly_closed_lanes {0} (ex_traveling 1) =
       Inr ((ex_traveling 1)\<lparr>trace := trace (ex_traveling 1) @ [Replan]\<rparr>)"
    by (simp add: newly_closed_lanes_def ev)
  moreover have "lane_from ex_graph 1 0 = Some 1"
    by (simp add: lane_from_def ex_graph_def)
  ultimately show ?thesis using ev by simp
qed

subsection \<open>The target index and the last known state\<close>

lemma update_following_state:
  "update_following env now st h = Inr h' \<Longrightarrow> last_known_state h' = last_known_state h"
  by (auto simp: update_following_def run_estimate_state_def run_check_path_finish_def
      run_estimate_path_traveling_def emit_def split: if_splits)

lemma update_docking_state:
  "update_docking env now st cb h = Inr h' \<Longrightarrow> last_known_state h' = last_known_state h"
  by (auto simp: update_docking_def run_estimate_waypoint_def emit_def Let_def
      split: if_splits option.splits)

lemma update_state_records:
  assumes "update_state env now st h = Inr h'"
  shows "last_known_state h' = Some st"
proof (cases "ti_path_finished_callback (travel_info h) \<noteq> None")
  case True
  with assms have "update_following env now st (record_state st h) = Inr h'"
    by (simp add: update_state_unfold)
  from update_following_state [OF this] show ?thesis by simp
next
  case False
  show ?thesis
  proof (cases "dock_finished_callback h")
    case None
    with False assms
    have "h' = run_estimate_state env (rs_location st) (record_state st h)"
      by (simp add: update_state_unfold)
    then show ?thesis by (simp add: run_estimate_state_def emit_def)
  next
    case (Some cb)
    with False assms have "update_docking env now st cb (record_state st h) = Inr h'"
      by (simp add: update_state_unfold)
    from update_docking_state [OF this] show ?thesis by simp
  qed
qed

lemma follow_new_path_clears:
  "follow_new_path now wps est cb h = Inr h' \<Longrightarrow>
     ti_target_plan_index (travel_info h') = None"
  by (auto simp: follow_new_path_def Let_def emit_def split: sum.splits)

lemma stop_keeps:
  "ti_target_plan_index (travel_info (stop now h)) = ti_target_plan_index (travel_info h)"
  "last_known_state (stop now h) = last_known_state h"
  by (simp_all add: stop_def Let_def clear_last_command_def emit_def split: option.splits)

lemma dock_keeps:
  "dock now dock_name cb h = Inr h' \<Longrightarrow>
     ti_target_plan_index (travel_info h') = ti_target_plan_index (travel_info h)
     \<and> last_known_state h' = last_known_state h"
  by (auto simp: dock_def Let_def clear_last_command_def emit_def
      split: list.splits option.splits sum.splits)

lemma newly_closed_lanes_keeps:
  "newly_closed_lanes cls h = Inr h' \<Longrightarrow>
     ti_target_plan_index (travel_info h') = ti_target_plan_index (travel_info h)
     \<and> last_known_state h' = last_known_state h"
  by (auto simp: newly_closed_lanes_def Let_def split: option.splits if_splits sum.splits)

lemma small_operations_keep:
  "ti_target_plan_index (travel_info (set_updater env h)) =
     ti_target_plan_index (travel_info h)"
  "last_known_state (set_updater env h) = last_known_state h"
  "ti_target_plan_index (travel_info (set_action_execution a h)) =
     ti_target_plan_index (travel_info h)"
  "last_known_state (set_action_execution a h) = last_known_state h"
  "ti_target_plan_index (travel_info (complete_robot_action h)) =
     ti_target_plan_index (travel_info h)"
  "last_known_state (complete_robot_action h) = last_known_state h"
  "ti_target_plan_index (travel_info (handle_interrupt_request r h)) =
     ti_target_plan_index (travel_info h)"
  "last_known_state (handle_interrupt_request r h) = last_known_state h"
  by (simp_all add: set_updater_def set_action_execution_def complete_robot_action_def
      handle_interrupt_request_def emit_def split: option.splits)

lemma reachable_invariant:
  "reachable env h \<Longrightarrow>
     ti_target_plan_index (travel_info h) \<noteq> None \<longrightarrow> last_known_state h \<noteq> None"
proof (induction rule: reachable.induct)
  case (created now fleet_name robot_name g)
  show ?case by (simp add: make_handle_def)
next
  case (after_follow_new_path h now wps est cb h')
  then show ?case by (simp add: follow_new_path_clears)
next
  case (after_dock h now dock_name cb h')
  from dock_keeps [OF after_dock.hyps(2)] after_dock.IH show ?case by simp
next
  case (after_update_state h now st h')
  from update_state_records [OF after_update_state.hyps(2)] show ?case by simp
next
  case (after_newly_closed_lanes h cls h')
  from newly_closed_lanes_keeps [OF after_newly_closed_lanes.hyps(2)]
    after_newly_closed_lanes.IH show ?case by simp
qed (simp_all add: stop_keeps small_operations_keep)

lemma current_lanes_loop_no_null:
  "current_lanes_loop g cls (Some st) ls acc \<noteq> Inl Null_dereference"
proof (induction ls arbitrary: acc)
  case Nil
  show ?case by simp
next
  case (Cons l ls)
  obtain need evs where acc: "acc = (need, evs)" by (cases acc)
  show ?case
    using Cons.IH closed_lane_events_no_null [of g st l]
    by (auto simp: acc split: sum.splits)
qed

lemma newly_closed_lanes_no_null:
  assumes "ti_target_plan_index (travel_info h) \<noteq> None \<longrightarrow> last_known_state h \<noteq> None"
  shows "newly_closed_lanes cls h \<noteq> Inl Null_dereference"
proof (cases "ti_target_plan_index (travel_info h)")
  case None
  then show ?thesis by (simp add: newly_closed_lanes_def)
next
  case (Some i)
  with assms obtain st where st: "last_known_state h = Some st" by auto
  show ?thesis
    using current_lanes_loop_no_null
      [of "ti_graph (travel_info h)" cls st
        "pw_approach_lanes (ti_waypoints (travel_info h) ! i)" "(False, [])"]
    by (auto simp: newly_closed_lanes_def Some st Let_def split: sum.splits)
qed

text \<open>
  C9. Every reachable handle whose \<open>target_plan_index\<close> holds a value also holds a last
  known state: \<open>follow_new_path\<close> clears the index, \<open>update_state\<close> records the state
  before anything can set the index, and no other operation changes either. Hence
  \<open>newly_closed_lanes\<close> never dereferences an empty \<open>_last_known_state\<close>.
\<close>

theorem target_index_implies_state:
  assumes "reachable env h"
  shows "(ti_target_plan_index (travel_info h) \<noteq> None \<longrightarrow> last_known_state h \<noteq> None)
    \<and> newly_closed_lanes cls h \<noteq> Inl Null_dereference"
  using reachable_invariant [OF assms] newly_closed_lanes_no_null by blast

lemma ex_traveling_reachable: "reachable ex_env (ex_traveling x)"
proof -
  have "reachable ex_env ex_handle"
    unfolding ex_handle_def by (rule reachable.created)
  then have "reachable ex_env ex_following"
    using follow_ex by (rule reachable.after_follow_new_path)
  then show ?thesis
    using ex_traveling_eq by (rule reachable.after_update_state)
qed

text \<open>
  The handle that follows a path after one acknowledged state: its target index is 1.
\<close>

theorem target_index_implies_state_witness:
  "reachable ex_env (ex_traveling (1 / 2))
   \<and> ti_target_plan_index (travel_info (ex_traveling (1 / 2))) = Some 1
   \<and> last_known_state (ex_traveling (1 / 2)) \<noteq> None
   \<and> newly_closed_lanes {0} (ex_traveling (1 / 2)) \<noteq> Inl Null_dereference"
  using target_index_implies_state [OF ex_traveling_reachable, of "1 / 2" "{0}"]
    ex_traveling_reachable [of "1 / 2"]
  by simp

subsection \<open>Robots that cannot be located\<close>

lemma dfg_waypoints_nearest:
  "dfg_waypoints p m wps i out = res \<Longrightarrow>
     (\<forall>w\<in>set wps. wp_map_name w = m \<longrightarrow>
        (\<exists>r. res = Some r \<and> dfg_value r \<le> waypoint_distance p w))
     \<and> (\<forall>old. out = Some old \<longrightarrow> (\<exists>r. res = Some r \<and> dfg_value r \<le> dfg_value old))"
proof (induction wps arbitrary: i out)
  case Nil
  then show ?case by simp
next
  case (Cons w ws)
  let ?dist = "vnorm (vsub (wp_location w) p)"
  let ?new = "Some \<lparr>dfg_value = ?dist, dfg_index = i, dfg_type = Waypoint\<rparr>"
  show ?case
  proof (cases "wp_map_name w \<noteq> m")
    case True
    with Cons.prems have "dfg_waypoints p m ws (Suc i) out = res" by simp
    from Cons.IH [OF this] True show ?thesis by auto
  next
    case same: False
    show ?thesis
    proof (cases "case out of None \<Rightarrow> True | Some out \<Rightarrow> ?dist < dfg_value out")
      case True
      with same Cons.prems have "dfg_waypoints p m ws (Suc i) ?new = res"
        by (simp add: Let_def)
      from Cons.IH [OF this] have
        ws: "\<forall>w\<in>set ws. wp_map_name w = m \<longrightarrow>
          (\<exists>r. res = Some r \<and> dfg_value r \<le> waypoint_distance p w)"
        and new: "\<exists>r. res = Some r \<and> dfg_value r \<le> ?dist" by auto
      from new True have "\<forall>old. out = Some old \<longrightarrow> (\<exists>r. res = Some r \<and> dfg_value r \<le> dfg_value old)"
        by (auto split: option.splits)
      with ws new show ?thesis by (auto simp: waypoint_distance_def)
    next
      case False
      then obtain old where old: "out = Some old" "dfg_value old \<le> ?dist"
        by (auto split: option.splits)
      from False same Cons.prems have "dfg_waypoints p m ws (Suc i) out = res"
        by (simp add: Let_def)
      from Cons.IH [OF this] old show ?thesis
        by (fastforce simp: waypoint_distance_def)
    qed
  qed
qed

lemma dfg_lanes_step:
  assumes "get_waypoint g (lane_entry lane) = Inr wp0"
    and "get_waypoint g (lane_exit lane) = Inr wp1"
  shows "dfg_lanes g p m (lane # rest) i out =
     (if lane_admits g p m lane then
        (if (case out of None \<Rightarrow> True | Some old \<Rightarrow> lane_distance g p lane < dfg_value old)
         then dfg_lanes g p m rest (Suc i)
                (Some \<lparr>dfg_value = lane_distance g p lane, dfg_index = i, dfg_type = Lane\<rparr>)
         else dfg_lanes g p m rest (Suc i) out)
      else dfg_lanes g p m rest (Suc i) out)"
  using assms
  by (cases out)
    (auto simp: lane_admits_def lane_distance_def lane_length_def lane_param_def Let_def)

lemma dfg_lanes_nearest:
  "dfg_lanes g p m ls i out = Inr res \<Longrightarrow>
     (\<forall>lane\<in>set ls. lane_admits g p m lane \<longrightarrow>
        (\<exists>r. res = Some r \<and> dfg_value r \<le> lane_distance g p lane))
     \<and> (\<forall>old. out = Some old \<longrightarrow> (\<exists>r. res = Some r \<and> dfg_value r \<le> dfg_value old))"
proof (induction ls arbitrary: i out)
  case Nil
  then show ?case by simp
next
  case (Cons lane rest)
  from Cons.prems obtain wp0 wp1 where
    wp0: "get_waypoint g (lane_entry lane) = Inr wp0" and
    wp1: "get_waypoint g (lane_exit lane) = Inr wp1"
    by (auto split: sum.splits)
  note step = dfg_lanes_step [OF wp0 wp1, of p m rest i out]
  let ?dist = "lane_distance g p lane"
  let ?new = "Some \<lparr>dfg_value = ?dist, dfg_index = i, dfg_type = Lane\<rparr>"
  show ?case
  proof (cases "lane_admits g p m lane")
    case False
    with Cons.prems step have "dfg_lanes g p m rest (Suc i) out = Inr res"
      by simp
    from Cons.IH [OF this] False show ?thesis by auto
  next
    case adm: True
    show ?thesis
    proof (cases "case out of None \<Rightarrow> True | Some old \<Rightarrow> ?dist < dfg_value old")
      case True
      with adm Cons.prems step have "dfg_lanes g p m rest (Suc i) ?new = Inr res"
        by simp
      from Cons.IH [OF this] have
        ws: "\<forall>lane\<in>set rest. lane_admits g p m lane \<longrightarrow>
          (\<exists>r. res = Some r \<and> dfg_value r \<le> lane_distance g p lane)"
        and new: "\<exists>r. res = Some r \<and> dfg_value r \<le> ?dist" by auto
      from new True
      have "\<forall>old. out = Some old \<longrightarrow> (\<exists>r. res = Some r \<and> dfg_value r \<le> dfg_value old)"
        by (auto split: option.splits)
      with ws new show ?thesis by auto
    next
      case False
      then obtain old where old: "out = Some old" "dfg_value old \<le> ?dist"
        by (auto split: option.splits)
      from False adm Cons.prems step have "dfg_lanes g p m rest (Suc i) out = Inr res"
        by simp
      from Cons.IH [OF this] old show ?thesis by fastforce
    qed
  qed
qed

lemma distance_from_graph_nearest:
  assumes "distance_from_graph l g = Inr res"
  shows "(\<forall>w\<in>set (g_waypoints g). wp_map_name w = loc_level_name l \<longrightarrow>
            (\<exists>r. res = Some r \<and> dfg_value r \<le> waypoint_distance (loc_x l, loc_y l) w))
    \<and> (\<forall>lane\<in>set (g_lanes g). lane_admits g (loc_x l, loc_y l) (loc_level_name l) lane \<longrightarrow>
            (\<exists>r. res = Some r \<and> dfg_value r \<le> lane_distance g (loc_x l, loc_y l) lane))"
proof -
  let ?p = "(loc_x l, loc_y l)"
  let ?m = "loc_level_name l"
  let ?mid = "dfg_waypoints ?p ?m (g_waypoints g) 0 None"
  from assms have lanes: "dfg_lanes g ?p ?m (g_lanes g) 0 ?mid = Inr res"
    by (simp add: distance_from_graph_def)
  have wps: "\<forall>w\<in>set (g_waypoints g). wp_map_name w = ?m \<longrightarrow>
        (\<exists>r. ?mid = Some r \<and> dfg_value r \<le> waypoint_distance ?p w)"
    using dfg_waypoints_nearest [of ?p ?m "g_waypoints g" 0 None ?mid] by simp
  from dfg_lanes_nearest [OF lanes] have
    a: "\<forall>lane\<in>set (g_lanes g). lane_admits g ?p ?m lane \<longrightarrow>
        (\<exists>r. res = Some r \<and> dfg_value r \<le> lane_distance g ?p lane)"
    and b: "\<forall>old. ?mid = Some old \<longrightarrow> (\<exists>r. res = Some r \<and> dfg_value r \<le> dfg_value old)"
    by auto
  have "\<forall>w\<in>set (g_waypoints g). wp_map_name w = ?m \<longrightarrow>
        (\<exists>r. res = Some r \<and> dfg_value r \<le> waypoint_distance ?p w)"
  proof (intro ballI impI)
    fix w assume "w \<in> set (g_waypoints g)" "wp_map_name w = ?m"
    with wps obtain old where old: "?mid = Some old" "dfg_value old \<le> waypoint_distance ?p w"
      by blast
    with b obtain r where "res = Some r" "dfg_value r \<le> dfg_value old" by blast
    with old show "\<exists>r. res = Some r \<and> dfg_value r \<le> waypoint_distance ?p w"
      by auto
  qed
  with a show ?thesis by blast
qed

lemma dfg_waypoints_attained:
  "dfg_waypoints p m wps i out = Some r \<Longrightarrow>
     out = Some r
     \<or> (dfg_type r = Waypoint
        \<and> (\<exists>k<length wps. dfg_index r = i + k \<and> wp_map_name (wps ! k) = m
              \<and> dfg_value r = waypoint_distance p (wps ! k)))"
proof (induction wps arbitrary: i out)
  case Nil
  then show ?case by simp
next
  case (Cons w ws)
  let ?dist = "vnorm (vsub (wp_location w) p)"
  let ?new = "\<lparr>dfg_value = ?dist, dfg_index = i, dfg_type = Waypoint\<rparr>"
  have shift: "\<And>out'. dfg_waypoints p m ws (Suc i) out' = Some r \<Longrightarrow> out' \<noteq> Some r \<Longrightarrow>
      dfg_type r = Waypoint
        \<and> (\<exists>k<length (w # ws). dfg_index r = i + k \<and> wp_map_name ((w # ws) ! k) = m
              \<and> dfg_value r = waypoint_distance p ((w # ws) ! k))"
  proof -
    fix out' assume "dfg_waypoints p m ws (Suc i) out' = Some r" "out' \<noteq> Some r"
    with Cons.IH [of "Suc i" out'] obtain k where
      t: "dfg_type r = Waypoint" and k: "k < length ws" "dfg_index r = Suc i + k"
      "wp_map_name (ws ! k) = m" "dfg_value r = waypoint_distance p (ws ! k)"
      by blast
    from k have "Suc k < length (w # ws) \<and> dfg_index r = i + Suc k
        \<and> wp_map_name ((w # ws) ! Suc k) = m
        \<and> dfg_value r = waypoint_distance p ((w # ws) ! Suc k)"
      by simp
    with t show "dfg_type r = Waypoint
        \<and> (\<exists>k<length (w # ws). dfg_index r = i + k \<and> wp_map_name ((w # ws) ! k) = m
              \<and> dfg_value r = waypoint_distance p ((w # ws) ! k))"
      by blast
  qed
  show ?case
  proof (cases "wp_map_name w \<noteq> m")
    case True
    with Cons.prems have "dfg_waypoints p m ws (Suc i) out = Some r" by simp
    with shift [of out] show ?thesis by blast
  next
    case same: False
    show ?thesis
    proof (cases "case out of None \<Rightarrow> True | Some old \<Rightarrow> ?dist < dfg_value old")
      case True
      with same Cons.prems have run: "dfg_waypoints p m ws (Suc i) (Some ?new) = Some r"
        by (simp add: Let_def)
      show ?thesis
      proof (cases "Some ?new = Some r")
        case True
        then have "dfg_type r = Waypoint \<and> 0 < length (w # ws) \<and> dfg_index r = i + 0
            \<and> wp_map_name ((w # ws) ! 0) = m
            \<and> dfg_value r = waypoint_distance p ((w # ws) ! 0)"
          using same by (auto simp: waypoint_distance_def)
        then show ?thesis by blast
      next
        case False
        with shift [OF run] show ?thesis by blast
      qed
    next
      case False
      with same Cons.prems have "dfg_waypoints p m ws (Suc i) out = Some r"
        by (simp add: Let_def)
      with shift [of out] show ?thesis by blast
    qed
  qed
qed

lemma dfg_lanes_attained:
  "dfg_lanes g p m ls i out = Inr (Some r) \<Longrightarrow>
     out = Some r
     \<or> (dfg_type r = Lane
        \<and> (\<exists>k<length ls. dfg_index r = i + k \<and> lane_admits g p m (ls ! k)
              \<and> dfg_value r = lane_distance g p (ls ! k)))"
proof (induction ls arbitrary: i out)
  case Nil
  then show ?case by simp
next
  case (Cons lane rest)
  from Cons.prems obtain wp0 wp1 where
    wp0: "get_waypoint g (lane_entry lane) = Inr wp0" and
    wp1: "get_waypoint g (lane_exit lane) = Inr wp1"
    by (auto split: sum.splits)
  note step = dfg_lanes_step [OF wp0 wp1, of p m rest i out]
  let ?new = "\<lparr>dfg_value = lane_distance g p lane, dfg_index = i, dfg_type = Lane\<rparr>"
  have shift: "\<And>out'. dfg_lanes g p m rest (Suc i) out' = Inr (Some r) \<Longrightarrow> out' \<noteq> Some r \<Longrightarrow>
      dfg_type r = Lane
        \<and> (\<exists>k<length (lane # rest). dfg_index r = i + k
              \<and> lane_admits g p m ((lane # rest) ! k)
              \<and> dfg_value r = lane_distance g p ((lane # rest) ! k))"
  proof -
    fix out' assume "dfg_lanes g p m rest (Suc i) out' = Inr (Some r)" "out' \<noteq> Some r"
    with Cons.IH [of "Suc i" out'] obtain k where
      t: "dfg_type r = Lane" and k: "k < length rest" "dfg_index r = Suc i + k"
      "lane_admits g p m (rest ! k)" "dfg_value r = lane_distance g p (rest ! k)"
      by blast
    from k have "Suc k < length (lane # rest) \<and> dfg_index r = i + Suc k
        \<and> lane_admits g p m ((lane # rest) ! Suc k)
        \<and> dfg_value r = lane_distance g p ((lane # rest) ! Suc k)"
      by simp
    with t show "dfg_type r = Lane
        \<and> (\<exists>k<length (lane # rest). dfg_index r = i + k
              \<and> lane_admits g p m ((lane # rest) ! k)
              \<and> dfg_value r = lane_distance g p ((lane # rest) ! k))"
      by blast
  qed
  show ?case
  proof (cases "lane_admits g p m lane")
    case False
    with Cons.prems step have "dfg_lanes g p m rest (Suc i) out = Inr (Some r)" by simp
    with shift [of out] show ?thesis by blast
  next
    case adm: True
    show ?thesis
    proof (cases "case out of None \<Rightarrow> True
        | Some old \<Rightarrow> lane_distance g p lane < dfg_value old")
      case True
      with adm Cons.prems step
      have run: "dfg_lanes g p m rest (Suc i) (Some ?new) = Inr (Some r)" by simp
      show ?thesis
      proof (cases "Some ?new = Some r")
        case True
        then have "dfg_type r = Lane \<and> 0 < length (lane # rest) \<and> dfg_index r = i + 0
            \<and> lane_admits g p m ((lane # rest) ! 0)
            \<and> dfg_value r = lane_distance g p ((lane # rest) ! 0)"
          using adm by auto
        then show ?thesis by blast
      next
        case False
        with shift [OF run] show ?thesis by blast
      qed
    next
      case False
      with adm Cons.prems step
      have "dfg_lanes g p m rest (Suc i) out = Inr (Some r)" by simp
      with shift [of out] show ?thesis by blast
    qed
  qed
qed

lemma distance_from_graph_attained:
  assumes "distance_from_graph l g = Inr (Some d)"
  shows "if dfg_type d = Lane
         then dfg_index d < length (g_lanes g)
              \<and> lane_admits g (loc_x l, loc_y l) (loc_level_name l) (g_lanes g ! dfg_index d)
              \<and> dfg_value d = lane_distance g (loc_x l, loc_y l) (g_lanes g ! dfg_index d)
         else dfg_index d < length (g_waypoints g)
              \<and> wp_map_name (g_waypoints g ! dfg_index d) = loc_level_name l
              \<and> dfg_value d = waypoint_distance (loc_x l, loc_y l)
                   (g_waypoints g ! dfg_index d)"
proof -
  let ?p = "(loc_x l, loc_y l)"
  let ?m = "loc_level_name l"
  let ?mid = "dfg_waypoints ?p ?m (g_waypoints g) 0 None"
  from assms have lanes: "dfg_lanes g ?p ?m (g_lanes g) 0 ?mid = Inr (Some d)"
    by (simp add: distance_from_graph_def)
  from dfg_lanes_attained [OF lanes] show ?thesis
  proof
    assume "?mid = Some d"
    from dfg_waypoints_attained [OF this] show ?thesis by auto
  next
    assume "dfg_type d = Lane
        \<and> (\<exists>k<length (g_lanes g). dfg_index d = 0 + k
              \<and> lane_admits g ?p ?m (g_lanes g ! k)
              \<and> dfg_value d = lane_distance g ?p (g_lanes g ! k))"
    then show ?thesis by auto
  qed
qed

lemma to_name_label:
  "index < length (g_waypoints g) \<Longrightarrow> to_name g index = Inr (waypoint_label g index)"
  by (simp add: to_name_def get_waypoint_def waypoint_label_def)

lemma lane_admits_valid:
  "lane_admits g p m lane \<Longrightarrow>
     lane_entry lane < length (g_waypoints g) \<and> lane_exit lane < length (g_waypoints g)"
  by (auto simp: lane_admits_def get_waypoint_def split: sum.splits if_splits)

lemma make_hint_nearest:
  assumes "make_hint g l = Inr hint"
  shows "(distance_from_graph l g = Inr None \<longrightarrow>
            hint = No_waypoints_on_map (loc_level_name l)
            \<and> (\<forall>w\<in>set (g_waypoints g). wp_map_name w \<noteq> loc_level_name l)
            \<and> (\<forall>lane\<in>set (g_lanes g).
                  \<not> lane_admits g (loc_x l, loc_y l) (loc_level_name l) lane))
    \<and> (\<forall>d. distance_from_graph l g = Inr (Some d) \<longrightarrow>
          (if dfg_type d = Lane
           then dfg_index d < length (g_lanes g)
                \<and> lane_admits g (loc_x l, loc_y l) (loc_level_name l)
                     (g_lanes g ! dfg_index d)
                \<and> hint = Closest_lane (dfg_index d)
                     (waypoint_label g (lane_entry (g_lanes g ! dfg_index d)))
                     (waypoint_label g (lane_exit (g_lanes g ! dfg_index d)))
                     (lane_distance g (loc_x l, loc_y l) (g_lanes g ! dfg_index d))
           else dfg_index d < length (g_waypoints g)
                \<and> wp_map_name (g_waypoints g ! dfg_index d) = loc_level_name l
                \<and> hint = Closest_waypoint (waypoint_label g (dfg_index d))
                     (waypoint_distance (loc_x l, loc_y l) (g_waypoints g ! dfg_index d)))
          \<and> (\<forall>w\<in>set (g_waypoints g). wp_map_name w = loc_level_name l \<longrightarrow>
                dfg_value d \<le> waypoint_distance (loc_x l, loc_y l) w)
          \<and> (\<forall>lane\<in>set (g_lanes g).
                lane_admits g (loc_x l, loc_y l) (loc_level_name l) lane \<longrightarrow>
                dfg_value d \<le> lane_distance g (loc_x l, loc_y l) lane)
          \<and> dfg_value d =
              (if dfg_type d = Lane
               then lane_distance g (loc_x l, loc_y l) (g_lanes g ! dfg_index d)
               else waypoint_distance (loc_x l, loc_y l) (g_waypoints g ! dfg_index d)))
    \<and> (\<exists>res. distance_from_graph l g = Inr res)"
proof (intro conjI allI impI)
  assume none: "distance_from_graph l g = Inr None"
  with assms show "hint = No_waypoints_on_map (loc_level_name l)"
    by (simp add: make_hint_def)
  from distance_from_graph_nearest [OF none]
  show "\<forall>w\<in>set (g_waypoints g). wp_map_name w \<noteq> loc_level_name l"
    and "\<forall>lane\<in>set (g_lanes g).
                  \<not> lane_admits g (loc_x l, loc_y l) (loc_level_name l) lane"
    by auto
next
  fix d assume d: "distance_from_graph l g = Inr (Some d)"
  note att = distance_from_graph_attained [OF d]
  show "if dfg_type d = Lane
           then dfg_index d < length (g_lanes g)
                \<and> lane_admits g (loc_x l, loc_y l) (loc_level_name l)
                     (g_lanes g ! dfg_index d)
                \<and> hint = Closest_lane (dfg_index d)
                     (waypoint_label g (lane_entry (g_lanes g ! dfg_index d)))
                     (waypoint_label g (lane_exit (g_lanes g ! dfg_index d)))
                     (lane_distance g (loc_x l, loc_y l) (g_lanes g ! dfg_index d))
           else dfg_index d < length (g_waypoints g)
                \<and> wp_map_name (g_waypoints g ! dfg_index d) = loc_level_name l
                \<and> hint = Closest_waypoint (waypoint_label g (dfg_index d))
                     (waypoint_distance (loc_x l, loc_y l) (g_waypoints g ! dfg_index d))"
  proof (cases "dfg_type d = Lane")
    case True
    with att have a: "dfg_index d < length (g_lanes g)"
      "lane_admits g (loc_x l, loc_y l) (loc_level_name l) (g_lanes g ! dfg_index d)"
      "dfg_value d = lane_distance g (loc_x l, loc_y l) (g_lanes g ! dfg_index d)"
      by simp_all
    from lane_admits_valid [OF a(2)]
    have "to_name g (lane_entry (g_lanes g ! dfg_index d)) =
        Inr (waypoint_label g (lane_entry (g_lanes g ! dfg_index d)))"
      and "to_name g (lane_exit (g_lanes g ! dfg_index d)) =
        Inr (waypoint_label g (lane_exit (g_lanes g ! dfg_index d)))"
      by (simp_all add: to_name_label)
    with assms d True a show ?thesis
      by (simp add: make_hint_def get_lane_def)
  next
    case False
    with att have a: "dfg_index d < length (g_waypoints g)"
      "wp_map_name (g_waypoints g ! dfg_index d) = loc_level_name l"
      "dfg_value d = waypoint_distance (loc_x l, loc_y l) (g_waypoints g ! dfg_index d)"
      by simp_all
    with assms d False show ?thesis
      by (simp add: make_hint_def to_name_label)
  qed
  from distance_from_graph_nearest [OF d]
  show "\<forall>w\<in>set (g_waypoints g). wp_map_name w = loc_level_name l \<longrightarrow>
                dfg_value d \<le> waypoint_distance (loc_x l, loc_y l) w"
    and "\<forall>lane\<in>set (g_lanes g).
                lane_admits g (loc_x l, loc_y l) (loc_level_name l) lane \<longrightarrow>
                dfg_value d \<le> lane_distance g (loc_x l, loc_y l) lane"
    by auto
  from att show "dfg_value d =
              (if dfg_type d = Lane
               then lane_distance g (loc_x l, loc_y l) (g_lanes g ! dfg_index d)
               else waypoint_distance (loc_x l, loc_y l) (g_waypoints g ! dfg_index d))"
    by (simp split: if_splits)
next
  from assms show "\<exists>res. distance_from_graph l g = Inr res"
    by (auto simp: make_hint_def split: sum.splits)
qed

lemma add_robot_rejects:
  assumes "cps (graph c) (loc_level_name (rs_location st))
             (location_position (rs_location st)) node_now = []"
    and "make_hint (graph c) (rs_location st) = Inr hint"
  shows "add_robot cps node_now fleet_name st c =
     Inr (c\<lparr>fleet_trace := fleet_trace c @
         [Compute_plan_starts (loc_level_name (rs_location st))
            (location_position (rs_location st)) node_now,
          Unable_to_compute_start_set (rs_name st) (loc_level_name (rs_location st))
            (location_position (rs_location st)) fleet_name hint]\<rparr>)"
  using assms by (simp add: add_robot_def Let_def location_position_def)

text \<open>
  C5, amended. When a robot state arrives for a name that is not a key of \<open>robots\<close>
  and \<open>compute_plan_starts\<close> returns no start, the fleet's \<open>add_robot\<close> is not called
  and an error is logged with a hint. When the reported map has no waypoint and admits
  no lane, the hint says that no waypoint is on that map. Otherwise the hint names one
  graph element, a waypoint of the reported map by its name (or \<open>#\<close> and its index) or
  an admitted lane by its index and the names of its two waypoints, together with the
  distance of the robot to that element, and no waypoint of the map and no admitted lane
  is nearer. The name stays in \<open>robots\<close> with a null handle, so a later state for the
  same name changes nothing: \<open>compute_plan_starts\<close> is not called again and nothing is
  logged.
\<close>

theorem unlocatable_robot_rejected:
  "robots c (rs_name st) = None
   \<and> cps (graph c) (loc_level_name (rs_location st))
        (location_position (rs_location st)) node_now = []
   \<and> make_hint (graph c) (rs_location st) = Inr hint
   \<and> rs_name st' = rs_name st
   \<longrightarrow>
     fleet_state_robot cps env now node_now fleet_name st c =
       Inr (rejected node_now fleet_name st hint c)
     \<and> robots (rejected node_now fleet_name st hint c) (rs_name st) = Some None
     \<and> (distance_from_graph (rs_location st) (graph c) = Inr None \<longrightarrow>
            hint = No_waypoints_on_map (loc_level_name (rs_location st))
            \<and> (\<forall>w\<in>set (g_waypoints (graph c)).
                  wp_map_name w \<noteq> loc_level_name (rs_location st))
            \<and> (\<forall>lane\<in>set (g_lanes (graph c)).
                  \<not> lane_admits (graph c) (robot_xy st) (loc_level_name (rs_location st))
                      lane))
     \<and> (\<forall>d. distance_from_graph (rs_location st) (graph c) = Inr (Some d) \<longrightarrow>
          (if dfg_type d = Lane
           then dfg_index d < length (g_lanes (graph c))
                \<and> lane_admits (graph c) (robot_xy st) (loc_level_name (rs_location st))
                     (g_lanes (graph c) ! dfg_index d)
                \<and> hint = Closest_lane (dfg_index d)
                     (waypoint_label (graph c)
                        (lane_entry (g_lanes (graph c) ! dfg_index d)))
                     (waypoint_label (graph c)
                        (lane_exit (g_lanes (graph c) ! dfg_index d)))
                     (lane_distance (graph c) (robot_xy st)
                        (g_lanes (graph c) ! dfg_index d))
           else dfg_index d < length (g_waypoints (graph c))
                \<and> wp_map_name (g_waypoints (graph c) ! dfg_index d)
                    = loc_level_name (rs_location st)
                \<and> hint = Closest_waypoint (waypoint_label (graph c) (dfg_index d))
                     (waypoint_distance (robot_xy st)
                        (g_waypoints (graph c) ! dfg_index d)))
          \<and> (\<forall>w\<in>set (g_waypoints (graph c)).
                wp_map_name w = loc_level_name (rs_location st) \<longrightarrow>
                dfg_value d \<le> waypoint_distance (robot_xy st) w)
          \<and> (\<forall>lane\<in>set (g_lanes (graph c)).
                lane_admits (graph c) (robot_xy st) (loc_level_name (rs_location st)) lane \<longrightarrow>
                dfg_value d \<le> lane_distance (graph c) (robot_xy st) lane)
          \<and> dfg_value d =
              (if dfg_type d = Lane
               then lane_distance (graph c) (robot_xy st) (g_lanes (graph c) ! dfg_index d)
               else waypoint_distance (robot_xy st)
                      (g_waypoints (graph c) ! dfg_index d)))
     \<and> (\<exists>res. distance_from_graph (rs_location st) (graph c) = Inr res)
     \<and> fleet_state_robot cps env now' node_now' fleet_name st'
          (rejected node_now fleet_name st hint c) =
        Inr (rejected node_now fleet_name st hint c)"
proof (intro impI)
  assume a: "robots c (rs_name st) = None
   \<and> cps (graph c) (loc_level_name (rs_location st))
        (location_position (rs_location st)) node_now = []
   \<and> make_hint (graph c) (rs_location st) = Inr hint
   \<and> rs_name st' = rs_name st"
  let ?c1 = "c\<lparr>robots := (robots c)(rs_name st \<mapsto> None)\<rparr>"
  have "add_robot cps node_now fleet_name st ?c1 =
     Inr (?c1\<lparr>fleet_trace := fleet_trace ?c1 @
         [Compute_plan_starts (loc_level_name (rs_location st))
            (location_position (rs_location st)) node_now,
          Unable_to_compute_start_set (rs_name st) (loc_level_name (rs_location st))
            (location_position (rs_location st)) fleet_name hint]\<rparr>)"
    using a by (intro add_robot_rejects) simp_all
  then have first: "fleet_state_robot cps env now node_now fleet_name st c =
       Inr (rejected node_now fleet_name st hint c)"
    using a by (simp add: fleet_state_robot_def Let_def rejected_def)
  have entry: "robots (rejected node_now fleet_name st hint c) (rs_name st) = Some None"
    by (simp add: rejected_def)
  have again: "fleet_state_robot cps env now' node_now' fleet_name st'
          (rejected node_now fleet_name st hint c) =
        Inr (rejected node_now fleet_name st hint c)"
    using a entry by (simp add: fleet_state_robot_def Let_def)
  from a have "make_hint (graph c) (rs_location st) = Inr hint" by simp
  note mh = make_hint_nearest [OF this, folded robot_xy_def]
  note mh1 = mh [THEN conjunct1]
  note mh2 = mh [THEN conjunct2, THEN conjunct1]
  note mh3 = mh [THEN conjunct2, THEN conjunct2]
  from first entry mh1 mh2 mh3 again
  show "fleet_state_robot cps env now node_now fleet_name st c =
       Inr (rejected node_now fleet_name st hint c)
     \<and> robots (rejected node_now fleet_name st hint c) (rs_name st) = Some None
     \<and> (distance_from_graph (rs_location st) (graph c) = Inr None \<longrightarrow>
            hint = No_waypoints_on_map (loc_level_name (rs_location st))
            \<and> (\<forall>w\<in>set (g_waypoints (graph c)).
                  wp_map_name w \<noteq> loc_level_name (rs_location st))
            \<and> (\<forall>lane\<in>set (g_lanes (graph c)).
                  \<not> lane_admits (graph c) (robot_xy st) (loc_level_name (rs_location st))
                      lane))
     \<and> (\<forall>d. distance_from_graph (rs_location st) (graph c) = Inr (Some d) \<longrightarrow>
          (if dfg_type d = Lane
           then dfg_index d < length (g_lanes (graph c))
                \<and> lane_admits (graph c) (robot_xy st) (loc_level_name (rs_location st))
                     (g_lanes (graph c) ! dfg_index d)
                \<and> hint = Closest_lane (dfg_index d)
                     (waypoint_label (graph c)
                        (lane_entry (g_lanes (graph c) ! dfg_index d)))
                     (waypoint_label (graph c)
                        (lane_exit (g_lanes (graph c) ! dfg_index d)))
                     (lane_distance (graph c) (robot_xy st)
                        (g_lanes (graph c) ! dfg_index d))
           else dfg_index d < length (g_waypoints (graph c))
                \<and> wp_map_name (g_waypoints (graph c) ! dfg_index d)
                    = loc_level_name (rs_location st)
                \<and> hint = Closest_waypoint (waypoint_label (graph c) (dfg_index d))
                     (waypoint_distance (robot_xy st)
                        (g_waypoints (graph c) ! dfg_index d)))
          \<and> (\<forall>w\<in>set (g_waypoints (graph c)).
                wp_map_name w = loc_level_name (rs_location st) \<longrightarrow>
                dfg_value d \<le> waypoint_distance (robot_xy st) w)
          \<and> (\<forall>lane\<in>set (g_lanes (graph c)).
                lane_admits (graph c) (robot_xy st) (loc_level_name (rs_location st)) lane \<longrightarrow>
                dfg_value d \<le> lane_distance (graph c) (robot_xy st) lane)
          \<and> dfg_value d =
              (if dfg_type d = Lane
               then lane_distance (graph c) (robot_xy st) (g_lanes (graph c) ! dfg_index d)
               else waypoint_distance (robot_xy st)
                      (g_waypoints (graph c) ! dfg_index d)))
     \<and> (\<exists>res. distance_from_graph (rs_location st) (graph c) = Inr res)
     \<and> fleet_state_robot cps env now' node_now' fleet_name st'
          (rejected node_now fleet_name st hint c) =
        Inr (rejected node_now fleet_name st hint c)"
    by (intro conjI)
qed

lemma ex_lost_hint:
  "make_hint ex_graph (rs_location ex_lost_state) = Inr (No_waypoints_on_map ''L2'')"
  by (simp add: make_hint_def distance_from_graph_def ex_graph_def ex_lost_state_def
      ex_state_def ex_location_def get_waypoint_def)

lemma ex_rejected_eq: "rejected 0 ''fleet'' ex_lost_state (No_waypoints_on_map ''L2'') ex_connections = ex_rejected"
  by (simp add: rejected_def ex_rejected_def ex_connections_def ex_lost_state_def ex_state_def
      ex_location_def location_position_def)

text \<open>
  C5 as stated fails: a robot on the map L2, which has no waypoint, is rejected with a
  hint that names no graph element, and the same state sent again leaves the
  connections, and so the trace with its single call of \<open>compute_plan_starts\<close>, as
  they are.
\<close>

theorem unlocatable_robot_not_retried_counterexample:
  "robots ex_connections (rs_name ex_lost_state) = None
   \<and> ex_no_starts ex_graph ''L2'' (0, 0, 0) 0 = []
   \<and> fleet_state_robot ex_no_starts ex_env 0 0 ''fleet'' ex_lost_state ex_connections
       = Inr ex_rejected
   \<and> fleet_state_robot ex_no_starts ex_env 1 1 ''fleet'' ex_lost_state ex_rejected
       = Inr ex_rejected
   \<and> fleet_trace ex_rejected =
       [Compute_plan_starts ''L2'' (0, 0, 0) 0,
        Unable_to_compute_start_set ''r1'' ''L2'' (0, 0, 0) ''fleet''
          (No_waypoints_on_map ''L2'')]"
proof -
  have a: "fleet_state_robot ex_no_starts ex_env 0 0 ''fleet'' ex_lost_state ex_connections
       = Inr ex_rejected"
    by (simp add: fleet_state_robot_def add_robot_def Let_def ex_lost_hint ex_no_starts_def
        ex_connections_def ex_rejected_def)
      (simp add: ex_lost_state_def ex_state_def ex_location_def)
  have b: "fleet_state_robot ex_no_starts ex_env 1 1 ''fleet'' ex_lost_state ex_rejected
       = Inr ex_rejected"
    by (simp add: fleet_state_robot_def Let_def ex_rejected_def ex_lost_state_def ex_state_def)
  show ?thesis
    using a b
    by (simp add: ex_no_starts_def)
      (simp add: ex_connections_def ex_rejected_def ex_lost_state_def ex_state_def)
qed

lemma ex_near_hint:
  "make_hint ex_graph (ex_location 2 0) = Inr (Closest_waypoint ''#1'' 1)"
  by (simp add: make_hint_def distance_from_graph_def ex_graph_def
      ex_location_def get_waypoint_def to_name_def vnorm_def dot_def vsub_def vscale_def
      Let_def to_string_1)

text \<open>
  The robot on the map L2, and a robot on L1 at \<open>(2, 0)\<close>, for which the hint names the
  second waypoint, \<open>#1\<close>, at distance 1.
\<close>

theorem unlocatable_robot_rejected_witness:
  "(robots ex_connections (rs_name ex_lost_state) = None
     \<and> ex_no_starts (graph ex_connections) (loc_level_name (rs_location ex_lost_state))
          (location_position (rs_location ex_lost_state)) 0 = []
     \<and> make_hint (graph ex_connections) (rs_location ex_lost_state)
          = Inr (No_waypoints_on_map ''L2''))
   \<and> fleet_state_robot ex_no_starts ex_env 0 0 ''fleet'' ex_lost_state ex_connections
       = Inr ex_rejected
   \<and> fleet_state_robot ex_no_starts ex_env 5 5 ''fleet'' ex_lost_state ex_rejected
       = Inr ex_rejected
   \<and> make_hint (graph ex_connections) (rs_location ex_near_state)
       = Inr (Closest_waypoint ''#1'' 1)
   \<and> fleet_state_robot ex_no_starts ex_env 0 0 ''fleet'' ex_near_state ex_connections
       = Inr (rejected 0 ''fleet'' ex_near_state (Closest_waypoint ''#1'' 1) ex_connections)"
proof -
  have hyp: "robots ex_connections (rs_name ex_lost_state) = None
     \<and> ex_no_starts (graph ex_connections) (loc_level_name (rs_location ex_lost_state))
          (location_position (rs_location ex_lost_state)) 0 = []
     \<and> make_hint (graph ex_connections) (rs_location ex_lost_state)
          = Inr (No_waypoints_on_map ''L2'')
     \<and> rs_name ex_lost_state = rs_name ex_lost_state"
    using ex_lost_hint by (simp add: ex_connections_def ex_no_starts_def)
  have near: "robots ex_connections (rs_name ex_near_state) = None
     \<and> ex_no_starts (graph ex_connections) (loc_level_name (rs_location ex_near_state))
          (location_position (rs_location ex_near_state)) 0 = []
     \<and> make_hint (graph ex_connections) (rs_location ex_near_state)
          = Inr (Closest_waypoint ''#1'' 1)
     \<and> rs_name ex_near_state = rs_name ex_near_state"
    using ex_near_hint
    by (simp add: ex_connections_def ex_no_starts_def ex_near_state_def ex_state_def)
  from unlocatable_robot_rejected [where c = ex_connections and st = ex_lost_state
      and st' = ex_lost_state and cps = ex_no_starts and node_now = 0
      and hint = "No_waypoints_on_map ''L2''" and env = ex_env and now = 0
      and fleet_name = "''fleet''" and now' = 5 and node_now' = 5, THEN mp, OF hyp]
  have a: "fleet_state_robot ex_no_starts ex_env 0 0 ''fleet'' ex_lost_state ex_connections
       = Inr ex_rejected
   \<and> fleet_state_robot ex_no_starts ex_env 5 5 ''fleet'' ex_lost_state ex_rejected
       = Inr ex_rejected"
    by (simp add: ex_rejected_eq)
  from unlocatable_robot_rejected [where c = ex_connections and st = ex_near_state
      and st' = ex_near_state and cps = ex_no_starts and node_now = 0
      and hint = "Closest_waypoint ''#1'' 1" and env = ex_env and now = 0
      and fleet_name = "''fleet''", THEN mp, OF near]
  have b: "fleet_state_robot ex_no_starts ex_env 0 0 ''fleet'' ex_near_state ex_connections
       = Inr (rejected 0 ''fleet'' ex_near_state (Closest_waypoint ''#1'' 1) ex_connections)"
    by simp
  from hyp near a b show ?thesis by simp
qed

end
